theory Spec2Isabelle
  imports Complex_Main "HOL-Library.AList" "HOL-Library.Log_Nat"
begin

section \<open>The forecaster of Weather.py\<close>

text \<open>
  The class \<^verbatim>\<open>NyanzaWeatherForecaster\<close> turns a forecast payload (a list of three-hourly
  readings) into one record per local calendar day and renders these records as text.
  The model follows the two loops of \<^verbatim>\<open>analyze_forecast\<close> and the loop of
  \<^verbatim>\<open>format_insights_for_farmers\<close>. An exception is a result \<open>Inl\<close>; it ends the call,
  so the updates made before it are not seen by anyone.

  What the Python run time contributes is kept in a record \<open>runtime\<close>:
  \<^item> \<open>float_round\<close>: the rounding of an arithmetic result to a representable number.
    The identity gives exact arithmetic, \<open>binary64\<close> below gives IEEE double precision
    (round to nearest, ties to even; the exponent is not bounded, so there is no overflow
    and no subnormal number, and there is no NaN).
  \<^item> \<open>utc_offset\<close>: the offset in seconds of the local time zone that
    \<^verbatim>\<open>datetime.fromtimestamp\<close> uses (a fixed offset; Nyanza has no daylight saving).
  \<^item> \<open>set_order\<close>: the order in which a Python \<^verbatim>\<open>set\<close> of strings is iterated, as a
    function of the elements in their order of insertion. It depends on the string hash
    seed of the process.
  \<^item> \<open>num_repr\<close> and \<open>date_repr\<close>: the text of a number in an f-string, and the text
    \<^verbatim>\<open>strftime('%Y-%m-%d')\<close> of a day. They belong to Python, not to the program, and
    stay parameters.

  A number is the rational it denotes, whether Python holds it as an \<^verbatim>\<open>int\<close> or as a
  \<^verbatim>\<open>float\<close>. A time stamp is an integer number of seconds. A calendar date is the number
  of the local day, counted from 1970-01-01; the \<^verbatim>\<open>'%Y-%m-%d'\<close> strings of two days are
  equal exactly when the days are, and are ordered as the days are, so keying the dictionary
  by the day number groups the readings as the strings do. A string is its UTF-8 bytes.

  What the model leaves out:
  \<^item> The numbers of a payload are finite. \<^verbatim>\<open>NaN\<close> and \<^verbatim>\<open>Infinity\<close>, which
    \<^verbatim>\<open>json\<close> accepts and to which it reads \<^verbatim>\<open>1e999\<close>, are not values of the model, and
    a sum never overflows to infinity.
  \<^item> An \<^verbatim>\<open>int\<close> is rounded as a \<^verbatim>\<open>float\<close> of the same value is; the two differ beyond
    \<open>2 ^ 53\<close>, and in their text (\<^verbatim>\<open>36\<close> and \<^verbatim>\<open>36.0\<close>).
  \<^item> The time zone is one offset for all time stamps, and the range of
    \<^verbatim>\<open>fromtimestamp\<close> is the range of years 1 to 9999 in local time, which a platform
    may narrow.
  \<^item> \<open>capitalize\<close> changes the case of ASCII letters only.
\<close>

subsection \<open>Errors and numbers\<close>

datatype error = KeyError string | DateOutOfRange | ZeroDivisionError

text \<open>\<^verbatim>\<open>-float('inf')\<close>, a finite number, \<^verbatim>\<open>float('inf')\<close>.\<close>

datatype xrat = NegInf | Fin rat | PosInf

record runtime =
  float_round :: "rat \<Rightarrow> rat"
  utc_offset :: int
  set_order :: "string list \<Rightarrow> string list"
  num_repr :: "rat \<Rightarrow> string"
  date_repr :: "int \<Rightarrow> string"

text \<open>\<^verbatim>\<open>a + b\<close> and \<^verbatim>\<open>a / n\<close> on numbers.\<close>

definition py_add :: "runtime \<Rightarrow> rat \<Rightarrow> rat \<Rightarrow> rat" where
  "py_add rt a b = float_round rt (a + b)"

definition py_truediv :: "runtime \<Rightarrow> rat \<Rightarrow> nat \<Rightarrow> error + rat" where
  "py_truediv rt a n =
     (if n = 0 then Inl ZeroDivisionError else Inr (float_round rt (a / of_nat n)))"

text \<open>Rounding to the nearest integer, a tie to the even neighbour.\<close>

definition round_half_even :: "rat \<Rightarrow> int" where
  "round_half_even x =
     (let f = \<lfloor>x\<rfloor>; r = x - of_int f
      in if r < 1 / 2 then f
         else if 1 / 2 < r then f + 1
         else if even f then f else f + 1)"

text \<open>
  \<^verbatim>\<open>round(x, 1)\<close>: the decimal with one digit after the point nearest to \<open>x\<close>, then the
  representable number nearest to that decimal.
\<close>

definition py_round1 :: "runtime \<Rightarrow> rat \<Rightarrow> rat" where
  "py_round1 rt x = float_round rt (of_int (round_half_even (x * 10)) / 10)"

fun xround1 :: "runtime \<Rightarrow> xrat \<Rightarrow> xrat" where
  "xround1 rt NegInf = NegInf"
| "xround1 rt (Fin a) = Fin (py_round1 rt a)"
| "xround1 rt PosInf = PosInf"

text \<open>\<^verbatim>\<open>max(a, t)\<close> and \<^verbatim>\<open>min(a, t)\<close>: the second argument wins only when strictly beyond the first.\<close>

fun py_max :: "xrat \<Rightarrow> rat \<Rightarrow> xrat" where
  "py_max NegInf t = Fin t"
| "py_max (Fin a) t = Fin (if a < t then t else a)"
| "py_max PosInf t = PosInf"

fun py_min :: "xrat \<Rightarrow> rat \<Rightarrow> xrat" where
  "py_min PosInf t = Fin t"
| "py_min (Fin a) t = Fin (if t < a then t else a)"
| "py_min NegInf t = NegInf"

text \<open>\<^verbatim>\<open>a > r\<close> for an accumulator \<open>a\<close>.\<close>

fun xgt :: "xrat \<Rightarrow> rat \<Rightarrow> bool" where
  "xgt NegInf r = False"
| "xgt (Fin a) r = (r < a)"
| "xgt PosInf r = True"


fun xrepr :: "runtime \<Rightarrow> xrat \<Rightarrow> string" where
  "xrepr rt NegInf = ''-inf''"
| "xrepr rt (Fin a) = num_repr rt a"
| "xrepr rt PosInf = ''inf''"

subsection \<open>IEEE double precision\<close>

text \<open>The integer \<open>k\<close> with \<open>2 ^ k \<le> x < 2 ^ (k + 1)\<close>, for \<open>x > 0\<close>.\<close>

definition pow2 :: "int \<Rightarrow> rat" where
  "pow2 k = (if 0 \<le> k then 2 ^ nat k else 1 / 2 ^ nat (- k))"

definition ilog2 :: "rat \<Rightarrow> int" where
  "ilog2 x =
     (let (a, b) = quotient_of x;
          k = bitlen a - bitlen b
      in if pow2 k \<le> x then k else k - 1)"

definition binary64 :: "rat \<Rightarrow> rat" where
  "binary64 x =
     (if x = 0 then 0
      else let e = ilog2 \<bar>x\<bar> - 52
           in of_int (round_half_even (x / pow2 e)) * pow2 e)"

subsection \<open>The crop table\<close>

record crop_profile =
  optimal_temp :: "rat \<times> rat"
  water_needs :: rat
  risk_temp :: rat

definition crop_data :: "string \<rightharpoonup> crop_profile" where
  "crop_data =
     [''maize'' \<mapsto> \<lparr>optimal_temp = (20, 30), water_needs = 500, risk_temp = 35\<rparr>,
      ''tea'' \<mapsto> \<lparr>optimal_temp = (15, 25), water_needs = 1200, risk_temp = 30\<rparr>,
      ''beans'' \<mapsto> \<lparr>optimal_temp = (18, 27), water_needs = 400, risk_temp = 32\<rparr>]"

text \<open>\<^verbatim>\<open>self.crop_data.get(crop_type, self.crop_data['maize'])\<close>; the default is evaluated first.\<close>

definition crop_info_of :: "string \<Rightarrow> error + crop_profile" where
  "crop_info_of crop_type =
     (case crop_data ''maize'' of
        None \<Rightarrow> Inl (KeyError ''maize'')
      | Some dflt \<Rightarrow> Inr (case crop_data crop_type of None \<Rightarrow> dflt | Some p \<Rightarrow> p))"

subsection \<open>The payload\<close>

text \<open>A field that a dictionary may lack is an option: \<open>None\<close> is the missing key.\<close>

record main_block =
  temp :: "rat option"
  humidity :: "rat option"

record rain_block =
  h3 :: "rat option"

record weather_entry =
  w_main :: "string option"

record item =
  item_dt :: "int option"
  item_main :: "main_block option"
  item_rain :: "rain_block option"
  item_weather :: "weather_entry list option"

record forecast =
  fc_list :: "item list option"

subsection \<open>The first loop: daily summaries\<close>

record daily =
  temp_sum :: rat
  temp_count :: nat
  rain_sum :: rat
  humidity_sum :: rat
  day_max_temp :: xrat
  day_min_temp :: xrat
  weather_conditions :: "string list"

definition new_day :: daily where
  "new_day = \<lparr>temp_sum = 0, temp_count = 0, rain_sum = 0, humidity_sum = 0,
     day_max_temp = NegInf, day_min_temp = PosInf, weather_conditions = []\<rparr>"

text \<open>The dictionary \<^verbatim>\<open>daily_data\<close>, in insertion order.\<close>

type_synonym daily_data = "(int \<times> daily) list"

text \<open>
  \<^verbatim>\<open>datetime.fromtimestamp(dt).strftime('%Y-%m-%d')\<close>: the local day, for a year from 1 to 9999.
\<close>

definition fromtimestamp_date :: "runtime \<Rightarrow> int \<Rightarrow> error + int" where
  "fromtimestamp_date rt t =
     (let s = t + utc_offset rt
      in if s < - 62135596800 \<or> 253402300800 \<le> s then Inl DateOutOfRange
         else Inr (s div 86400))"

text \<open>\<^verbatim>\<open>s.add(x)\<close> on a set kept in order of insertion.\<close>

definition set_add :: "'a \<Rightarrow> 'a list \<Rightarrow> 'a list" where
  "set_add x s = (if x \<in> set s then s else s @ [x])"

text \<open>\<^verbatim>\<open>s.update(w['main'] for w in item['weather'])\<close>\<close>

fun add_conditions :: "string list \<Rightarrow> weather_entry list \<Rightarrow> error + string list" where
  "add_conditions s [] = Inr s"
| "add_conditions s (w # ws) =
     (case w_main w of
        None \<Rightarrow> Inl (KeyError ''main'')
      | Some l \<Rightarrow> add_conditions (set_add l s) ws)"

text \<open>The updates of one reading to the entry of its day, in the order of the source.\<close>

definition update_day :: "runtime \<Rightarrow> daily \<Rightarrow> item \<Rightarrow> error + daily" where
  "update_day rt d it =
     (case item_main it of
        None \<Rightarrow> Inl (KeyError ''main'')
      | Some m \<Rightarrow>
     (case temp m of
        None \<Rightarrow> Inl (KeyError ''temp'')
      | Some t \<Rightarrow>
     (let d1 = d\<lparr>temp_sum := py_add rt (temp_sum d) t,
                 temp_count := temp_count d + 1,
                 day_max_temp := py_max (day_max_temp d) t,
                 day_min_temp := py_min (day_min_temp d) t\<rparr>;
          d2 = (case item_rain it of
                  None \<Rightarrow> d1
                | Some r \<Rightarrow>
                    d1\<lparr>rain_sum :=
                      py_add rt (rain_sum d1) (case h3 r of None \<Rightarrow> 0 | Some v \<Rightarrow> v)\<rparr>)
      in case humidity m of
           None \<Rightarrow> Inl (KeyError ''humidity'')
         | Some h \<Rightarrow>
        (let d3 = d2\<lparr>humidity_sum := py_add rt (humidity_sum d2) h\<rparr>
         in case item_weather it of
              None \<Rightarrow> Inl (KeyError ''weather'')
            | Some ws \<Rightarrow>
           (case add_conditions (weather_conditions d3) ws of
              Inl e \<Rightarrow> Inl e
            | Inr s \<Rightarrow> Inr (d3\<lparr>weather_conditions := s\<rparr>))))))"

text \<open>\<^verbatim>\<open>date = datetime.fromtimestamp(item['dt']).strftime('%Y-%m-%d')\<close>\<close>

definition item_date :: "runtime \<Rightarrow> item \<Rightarrow> error + int" where
  "item_date rt it =
     (case item_dt it of
        None \<Rightarrow> Inl (KeyError ''dt'')
      | Some t \<Rightarrow> fromtimestamp_date rt t)"

text \<open>The entry of a day: the one in the dictionary, or the new one that the loop inserts.\<close>

definition entry_of :: "daily_data \<Rightarrow> int \<Rightarrow> daily" where
  "entry_of daily_data d = (case map_of daily_data d of None \<Rightarrow> new_day | Some e \<Rightarrow> e)"

text \<open>
  The body of the first loop. The updated entry is stored in place, or appended when
  the day is new.
\<close>

definition process_item :: "runtime \<Rightarrow> daily_data \<Rightarrow> item \<Rightarrow> error + daily_data" where
  "process_item rt daily_data it =
     (case item_date rt it of
        Inl e \<Rightarrow> Inl e
      | Inr d \<Rightarrow>
     (case update_day rt (entry_of daily_data d) it of
        Inl e \<Rightarrow> Inl e
      | Inr e' \<Rightarrow> Inr (AList.update d e' daily_data)))"

fun process_items :: "runtime \<Rightarrow> daily_data \<Rightarrow> item list \<Rightarrow> error + daily_data" where
  "process_items rt daily_data [] = Inr daily_data"
| "process_items rt daily_data (it # its) =
     (case process_item rt daily_data it of
        Inl e \<Rightarrow> Inl e
      | Inr daily_data' \<Rightarrow> process_items rt daily_data' its)"

subsection \<open>The second loop: insights\<close>

record insight =
  date :: int
  avg_temp :: rat
  max_temp :: xrat
  min_temp :: xrat
  total_rain :: rat
  avg_humidity :: rat
  conditions :: string
  recommendations :: "string list"

definition heat_warning :: string where
  "heat_warning = [CHR 0xE2, CHR 0x9A, CHR 0xA0, CHR 0xEF, CHR 0xB8, CHR 0x8F]
     @ '' High temperature warning! Consider shading crops.''"

definition cold_warning :: string where
  "cold_warning = [CHR 0xE2, CHR 0x9D, CHR 0x84, CHR 0xEF, CHR 0xB8, CHR 0x8F]
     @ '' Low temperatures may slow growth.''"

definition irrigation_advice :: string where
  "irrigation_advice = [CHR 0xF0, CHR 0x9F, CHR 0x8C, CHR 0xA7, CHR 0xEF, CHR 0xB8, CHR 0x8F]
     @ '' Little rain expected. Consider irrigation.''"

definition drainage_advice :: string where
  "drainage_advice = [CHR 0xF0, CHR 0x9F, CHR 0x8C, CHR 0x8A]
     @ '' Heavy rain expected. Ensure proper drainage.''"

definition thunderstorm_advice :: string where
  "thunderstorm_advice = [CHR 0xE2, CHR 0x9A, CHR 0xA1]
     @ '' Thunderstorm expected. Secure equipment and harvest if possible.''"

text \<open>\<^verbatim>\<open>sep.join(xs)\<close>\<close>

fun join :: "string \<Rightarrow> string list \<Rightarrow> string" where
  "join sep [] = []"
| "join sep [x] = x"
| "join sep (x # y # ys) = x @ sep @ join sep (y # ys)"

text \<open>The three groups of checks, each appending to the list built so far.\<close>

definition temperature_checks :: "crop_profile \<Rightarrow> daily \<Rightarrow> rat \<Rightarrow> string list" where
  "temperature_checks crop_info data avg =
     (if xgt (day_max_temp data) (risk_temp crop_info) then [heat_warning]
      else if avg < fst (optimal_temp crop_info) then [cold_warning]
      else [])"

definition rainfall_analysis :: "rat \<Rightarrow> string list" where
  "rainfall_analysis rain =
     (if rain < 5 then [irrigation_advice]
      else if 20 < rain then [drainage_advice]
      else [])"

definition special_conditions :: "daily \<Rightarrow> string list" where
  "special_conditions data =
     (if ''Thunderstorm'' \<in> set (weather_conditions data) then [thunderstorm_advice] else [])"

text \<open>The body of the second loop.\<close>

definition daily_insight :: "runtime \<Rightarrow> crop_profile \<Rightarrow> int \<times> daily \<Rightarrow> error + insight" where
  "daily_insight rt crop_info entry =
     (let d = fst entry; data = snd entry
      in case py_truediv rt (temp_sum data) (temp_count data) of
           Inl e \<Rightarrow> Inl e
         | Inr avg \<Rightarrow>
        (case py_truediv rt (humidity_sum data) (temp_count data) of
           Inl e \<Rightarrow> Inl e
         | Inr avg_hum \<Rightarrow>
        (let rain = rain_sum data;
             recs = temperature_checks crop_info data avg @ rainfall_analysis rain
                    @ special_conditions data
         in Inr \<lparr>date = d,
                 avg_temp = py_round1 rt avg,
                 max_temp = xround1 rt (day_max_temp data),
                 min_temp = xround1 rt (day_min_temp data),
                 total_rain = py_round1 rt rain,
                 avg_humidity = py_round1 rt avg_hum,
                 conditions = join '', '' (set_order rt (weather_conditions data)),
                 recommendations = recs\<rparr>)))"

fun generate_insights :: "runtime \<Rightarrow> crop_profile \<Rightarrow> daily_data \<Rightarrow> error + insight list" where
  "generate_insights rt crop_info [] = Inr []"
| "generate_insights rt crop_info (entry # rest) =
     (case daily_insight rt crop_info entry of
        Inl e \<Rightarrow> Inl e
      | Inr i \<Rightarrow>
     (case generate_insights rt crop_info rest of
        Inl e \<Rightarrow> Inl e
      | Inr is \<Rightarrow> Inr (i # is)))"

text \<open>
  \<^verbatim>\<open>analyze_forecast\<close>. The payload \<open>None\<close> is a falsy \<^verbatim>\<open>forecast_data\<close> (\<^verbatim>\<open>None\<close>, or
  a dictionary without keys); the result \<open>Inr None\<close> is the \<^verbatim>\<open>None\<close> it returns then.
\<close>

definition aggregate :: "runtime \<Rightarrow> item list \<Rightarrow> error + daily_data" where
  "aggregate rt items = process_items rt [] items"

definition analyze_forecast ::
  "runtime \<Rightarrow> forecast option \<Rightarrow> string \<Rightarrow> error + insight list option" where
  "analyze_forecast rt forecast_data crop_type =
     (case forecast_data of
        None \<Rightarrow> Inr None
      | Some fd \<Rightarrow>
     (case crop_info_of crop_type of
        Inl e \<Rightarrow> Inl e
      | Inr crop_info \<Rightarrow>
     (case fc_list fd of
        None \<Rightarrow> Inl (KeyError ''list'')
      | Some items \<Rightarrow>
     (case aggregate rt items of
        Inl e \<Rightarrow> Inl e
      | Inr daily_data \<Rightarrow>
     (case generate_insights rt crop_info daily_data of
        Inl e \<Rightarrow> Inl e
      | Inr insights \<Rightarrow> Inr (Some insights))))))"

subsection \<open>The renderer\<close>

definition nl :: string where
  "nl = [CHR 0x0A]"

text \<open>\<^verbatim>\<open>str.capitalize\<close>, on the letters of ASCII; other bytes are kept.\<close>

definition ascii_upper :: "char \<Rightarrow> char" where
  "ascii_upper c =
     (let n = of_char c :: nat in if 97 \<le> n \<and> n \<le> 122 then char_of (n - 32) else c)"

definition ascii_lower :: "char \<Rightarrow> char" where
  "ascii_lower c =
     (let n = of_char c :: nat in if 65 \<le> n \<and> n \<le> 90 then char_of (n + 32) else c)"

fun capitalize :: "string \<Rightarrow> string" where
  "capitalize [] = []"
| "capitalize (c # cs) = ascii_upper c # map ascii_lower cs"

definition no_data_message :: string where
  "no_data_message = ''No weather data available. Please try again later.''"

definition seedling :: string where
  "seedling = [CHR 0xF0, CHR 0x9F, CHR 0x8C, CHR 0xB1]"

definition degree :: string where
  "degree = [CHR 0xC2, CHR 0xB0]"

definition header :: "string \<Rightarrow> string" where
  "header crop_type =
     seedling @ '' Weather Forecast for '' @ capitalize crop_type
       @ '' Farmers in Nyanza '' @ seedling @ nl"

text \<open>The text \<^verbatim>\<open>msg\<close> of one day.\<close>

definition day_block :: "runtime \<Rightarrow> insight \<Rightarrow> string" where
  "day_block rt day =
     nl @ [CHR 0xF0, CHR 0x9F, CHR 0x93, CHR 0x85] @ '' '' @ date_repr rt (date day) @ nl
     @ [CHR 0xF0, CHR 0x9F, CHR 0x8C, CHR 0xA1, CHR 0xEF, CHR 0xB8, CHR 0x8F] @ '' Temp: ''
       @ xrepr rt (min_temp day) @ degree @ ''C - '' @ xrepr rt (max_temp day) @ degree
       @ ''C (Avg: '' @ num_repr rt (avg_temp day) @ degree @ ''C)'' @ nl
     @ [CHR 0xF0, CHR 0x9F, CHR 0x92, CHR 0xA7] @ '' Rain: '' @ num_repr rt (total_rain day)
       @ ''mm | Humidity: '' @ num_repr rt (avg_humidity day) @ ''%'' @ nl
     @ [CHR 0xE2, CHR 0x9B, CHR 0x85] @ '' Conditions: '' @ conditions day @ nl
     @ (if recommendations day \<noteq> []
        then nl @ [CHR 0xF0, CHR 0x9F, CHR 0x94, CHR 0x8D] @ '' Recommendations:'' @ nl
             @ concat (map (\<lambda>rec. ''- '' @ rec @ nl) (recommendations day))
        else nl @ [CHR 0xE2, CHR 0x9C, CHR 0x85]
             @ '' Conditions look favorable for your crops!'' @ nl)"

text \<open>The list \<^verbatim>\<open>messages\<close>: the header, then one text per insight, in the order of the list.\<close>

definition messages :: "runtime \<Rightarrow> insight list \<Rightarrow> string \<Rightarrow> string list" where
  "messages rt insights crop_type = header crop_type # map (day_block rt) insights"

text \<open>\<^verbatim>\<open>format_insights_for_farmers\<close>; \<^verbatim>\<open>not insights\<close> holds for \<^verbatim>\<open>None\<close> and for the empty list.\<close>

definition format_insights_for_farmers ::
  "runtime \<Rightarrow> insight list option \<Rightarrow> string \<Rightarrow> string" where
  "format_insights_for_farmers rt insights crop_type =
     (case insights of
        None \<Rightarrow> no_data_message
      | Some [] \<Rightarrow> no_data_message
      | Some ins \<Rightarrow> join nl (messages rt ins crop_type))"

subsection \<open>Two run times\<close>

text \<open>
  The year, month and day of a day number, in the proleptic Gregorian calendar that
  \<^verbatim>\<open>datetime\<close> uses, and the text \<^verbatim>\<open>'%Y-%m-%d'\<close> of it for a year of four digits.
\<close>

definition civil_from_days :: "int \<Rightarrow> int \<times> int \<times> int" where
  "civil_from_days d =
     (let z = d + 719468;
          era = z div 146097;
          doe = z mod 146097;
          yoe = (doe - doe div 1460 + doe div 36524 - doe div 146096) div 365;
          doy = doe - (365 * yoe + yoe div 4 - yoe div 100);
          mp = (5 * doy + 2) div 153;
          dd = doy - (153 * mp + 2) div 5 + 1;
          m = (if mp < 10 then mp + 3 else mp - 9);
          y = yoe + era * 400 + (if m \<le> 2 then 1 else 0)
      in (y, m, dd))"

definition digit :: "int \<Rightarrow> char" where
  "digit n = char_of (48 + n)"

definition strftime_ymd :: "int \<Rightarrow> string" where
  "strftime_ymd d =
     (case civil_from_days d of
        (y, m, dd) \<Rightarrow>
          [digit (y div 1000), digit (y div 100 mod 10), digit (y div 10 mod 10), digit (y mod 10)]
          @ ''-'' @ [digit (m div 10), digit (m mod 10)]
          @ ''-'' @ [digit (dd div 10), digit (dd mod 10)])"

text \<open>
  \<open>exact\<close> computes without rounding error; \<open>python64\<close> computes in double precision.
  Both are in the time zone of Nyanza (UTC+3), iterate a set in the order given and print
  a date as \<^verbatim>\<open>strftime\<close> does. The text of a number is not modelled: both print a
  question mark for it.
\<close>

definition exact :: "(string list \<Rightarrow> string list) \<Rightarrow> runtime" where
  "exact order = \<lparr>float_round = (\<lambda>x. x), utc_offset = 10800, set_order = order,
     num_repr = (\<lambda>x. ''?''), date_repr = strftime_ymd\<rparr>"

definition python64 :: "(string list \<Rightarrow> string list) \<Rightarrow> runtime" where
  "python64 order = \<lparr>float_round = binary64, utc_offset = 10800, set_order = order,
     num_repr = (\<lambda>x. ''?''), date_repr = strftime_ymd\<rparr>"

text \<open>A reading with every field present.\<close>

definition reading :: "int \<Rightarrow> rat \<Rightarrow> rat \<Rightarrow> rat \<Rightarrow> string list \<Rightarrow> item" where
  "reading t tmp hum rain labels =
     \<lparr>item_dt = Some t,
      item_main = Some \<lparr>temp = Some tmp, humidity = Some hum\<rparr>,
      item_rain = Some \<lparr>h3 = Some rain\<rparr>,
      item_weather = Some (map (\<lambda>l. \<lparr>w_main = Some l\<rparr>) labels)\<rparr>"

subsection \<open>Notions of the specification\<close>

text \<open>The dates of the readings that have one, in the order of the readings.\<close>

definition item_dates :: "runtime \<Rightarrow> item list \<Rightarrow> int list" where
  "item_dates rt items =
     concat (map (\<lambda>it. case item_date rt it of Inl e \<Rightarrow> [] | Inr d \<Rightarrow> [d]) items)"


text \<open>The elements of a list in the order of their first occurrence.\<close>

definition first_seen :: "'a list \<Rightarrow> 'a list" where
  "first_seen xs = fold set_add xs []"

text \<open>The group of a day: the readings of that date, in the order of the payload.\<close>

definition day_items :: "runtime \<Rightarrow> int \<Rightarrow> item list \<Rightarrow> item list" where
  "day_items rt d items = filter (\<lambda>it. item_date rt it = Inr d) items"

text \<open>The temperatures of a group.\<close>

definition item_temps :: "item list \<Rightarrow> rat list" where
  "item_temps items =
     concat (map (\<lambda>it. case item_main it of
                          None \<Rightarrow> []
                        | Some m \<Rightarrow> (case temp m of None \<Rightarrow> [] | Some t \<Rightarrow> [t])) items)"

text \<open>The summary of a group on its own: the updates of its readings to a new entry.\<close>

fun update_days :: "runtime \<Rightarrow> daily \<Rightarrow> item list \<Rightarrow> error + daily" where
  "update_days rt e [] = Inr e"
| "update_days rt e (it # its) =
     (case update_day rt e it of
        Inl err \<Rightarrow> Inl err
      | Inr e' \<Rightarrow> update_days rt e' its)"

text \<open>
  The mean of a list of temperatures as the program computes it: the sum accumulated from
  0 in the order of the list, divided by the length, each operation rounded by the run time.
\<close>

definition mean_temp :: "runtime \<Rightarrow> rat list \<Rightarrow> rat" where
  "mean_temp rt ts = float_round rt (foldl (py_add rt) 0 ts / of_nat (length ts))"

text \<open>A reading with its precipitation written out: a missing block or amount becomes 0.\<close>

definition explicit_rain :: "item \<Rightarrow> item" where
  "explicit_rain it =
     it\<lparr>item_rain :=
          Some \<lparr>h3 = Some (case item_rain it of
                             None \<Rightarrow> 0
                           | Some r \<Rightarrow> (case h3 r of None \<Rightarrow> 0 | Some v \<Rightarrow> v))\<rparr>\<rparr>"

text \<open>A reading without a temperature: no \<^verbatim>\<open>'main'\<close> block, or no \<^verbatim>\<open>'temp'\<close> in it.\<close>

definition lacks_temp :: "item \<Rightarrow> bool" where
  "lacks_temp it = (case item_main it of None \<Rightarrow> True | Some m \<Rightarrow> temp m = None)"

text \<open>
  What the properties below need of the rounding of the run time: it keeps 0, it keeps every
  number it returns, and it is monotone.
\<close>

definition rounding :: "(rat \<Rightarrow> rat) \<Rightarrow> bool" where
  "rounding f \<longleftrightarrow> f 0 = 0 \<and> (\<forall>x. f (f x) = f x) \<and> (\<forall>x y. x \<le> y \<longrightarrow> f x \<le> f y)"

text \<open>An insight without its joined condition labels.\<close>

definition without_conditions :: "insight \<Rightarrow> insight" where
  "without_conditions i = i\<lparr>conditions := []\<rparr>"

text \<open>An entry whose rain total is a number that the rounding of the run time keeps.\<close>

definition settled :: "runtime \<Rightarrow> daily \<Rightarrow> bool" where
  "settled rt e \<longleftrightarrow> float_round rt (rain_sum e) = rain_sum e"


subsection \<open>Sample payloads\<close>

text \<open>One reading of 36 degrees without rain.\<close>

definition hot_day_items :: "item list" where
  "hot_day_items = [reading 0 36 50 0 []]"

text \<open>A day with 2mm and 3mm of rain, then a day with 20mm.\<close>

definition boundary_items :: "item list" where
  "boundary_items = [reading 0 25 50 2 [], reading 3600 25 50 3 [], reading 86400 25 50 20 []]"

text \<open>Two readings of the second of January 1970 with one of the first between them.\<close>

definition two_days_items :: "item list" where
  "two_days_items =
     [reading 86400 (81 / 4) 60 3 [''Rain'', ''Clouds''],
      reading 0 36 50 0 [],
      reading 90000 (41 / 2) 70 4 [''Rain'', ''Thunderstorm'']]"


text \<open>A reading without \<^verbatim>\<open>'temp'\<close>.\<close>

definition no_temp_item :: item where
  "no_temp_item =
     \<lparr>item_dt = Some 0, item_main = Some \<lparr>temp = None, humidity = Some 50\<rparr>,
      item_rain = None, item_weather = Some []\<rparr>"

text \<open>A reading without \<^verbatim>\<open>'rain'\<close> and a reading whose \<^verbatim>\<open>'rain'\<close> has no \<^verbatim>\<open>'3h'\<close>.\<close>

definition dry_items :: "item list" where
  "dry_items =
     [(reading 0 25 50 0 [])\<lparr>item_rain := None\<rparr>,
      (reading 3600 26 50 0 [])\<lparr>item_rain := Some \<lparr>h3 = None\<rparr>\<rparr>]"

section \<open>Properties\<close>

subsection \<open>The second loop, entry by entry\<close>

lemma advice_distinct:
  "heat_warning \<noteq> cold_warning" "heat_warning \<noteq> irrigation_advice"
  "heat_warning \<noteq> drainage_advice" "heat_warning \<noteq> thunderstorm_advice"
  "cold_warning \<noteq> irrigation_advice" "cold_warning \<noteq> drainage_advice"
  "cold_warning \<noteq> thunderstorm_advice" "irrigation_advice \<noteq> drainage_advice"
  "irrigation_advice \<noteq> thunderstorm_advice" "drainage_advice \<noteq> thunderstorm_advice"
  by (simp_all add: heat_warning_def cold_warning_def irrigation_advice_def
      drainage_advice_def thunderstorm_advice_def)

lemma generate_insights_all2:
  "generate_insights rt ci dd = Inr ins \<Longrightarrow>
   list_all2 (\<lambda>entry i. daily_insight rt ci entry = Inr i) dd ins"
  by (induction dd arbitrary: ins) (auto split: sum.splits)

lemma daily_insight_fields:
  assumes "daily_insight rt ci entry = Inr i"
  shows "date i = fst entry"
    and "recommendations i =
           temperature_checks ci (snd entry)
             (float_round rt (temp_sum (snd entry) / of_nat (temp_count (snd entry))))
           @ rainfall_analysis (rain_sum (snd entry)) @ special_conditions (snd entry)"
    and "temp_count (snd entry) \<noteq> 0"
  using assms
  by (auto simp: daily_insight_def py_truediv_def Let_def split: if_splits)

lemma analyze_forecast_Some:
  assumes "analyze_forecast rt (Some fd) crop_type = Inr (Some ins)"
  obtains ci items dd where "crop_info_of crop_type = Inr ci" "fc_list fd = Some items"
    "aggregate rt items = Inr dd" "generate_insights rt ci dd = Inr ins"
  using assms by (auto simp: analyze_forecast_def split: sum.splits option.splits)

lemma crop_info_of_maize:
  "crop_info_of ''maize'' = Inr \<lparr>optimal_temp = (20, 30), water_needs = 500, risk_temp = 35\<rparr>"
  by (simp add: crop_info_of_def crop_data_def)

subsection \<open>The first loop, day by day\<close>

lemma process_item_Inr:
  assumes "process_item rt dd it = Inr dd'"
  obtains d e' where "item_date rt it = Inr d" "update_day rt (entry_of dd d) it = Inr e'"
    "dd' = AList.update d e' dd"
  using assms by (auto simp: process_item_def split: sum.splits)

lemma entry_of_update: "entry_of (AList.update d e dd) d' = (if d' = d then e else entry_of dd d')"
  by (simp add: entry_of_def AList.update_conv')

lemma keys_update: "map fst (AList.update d e dd) = set_add d (map fst dd)"
  by (simp add: AList.update_keys set_add_def)

lemma process_items_keys:
  "process_items rt dd items = Inr dd' \<Longrightarrow>
   map fst dd' = fold set_add (item_dates rt items) (map fst dd)"
proof (induction items arbitrary: dd)
  case Nil
  then show ?case by (simp add: item_dates_def)
next
  case (Cons it items)
  from Cons.prems obtain dd1 where p1: "process_item rt dd it = Inr dd1"
    and p2: "process_items rt dd1 items = Inr dd'"
    by (auto split: sum.splits)
  from p1 obtain d e' where d: "item_date rt it = Inr d" and dd1: "dd1 = AList.update d e' dd"
    by (rule process_item_Inr)
  have "item_dates rt (it # items) = d # item_dates rt items"
    using d by (simp add: item_dates_def)
  with Cons.IH [OF p2] dd1 show ?case
    by (simp add: keys_update)
qed

lemma process_items_dated:
  "process_items rt dd items = Inr dd' \<Longrightarrow> it \<in> set items \<Longrightarrow> \<exists>d. item_date rt it = Inr d"
proof (induction items arbitrary: dd)
  case Nil
  then show ?case by simp
next
  case (Cons a items)
  from Cons.prems(1) obtain dd1 where p1: "process_item rt dd a = Inr dd1"
    and p2: "process_items rt dd1 items = Inr dd'"
    by (auto split: sum.splits)
  from p1 obtain d where "item_date rt a = Inr d"
    by (auto elim: process_item_Inr)
  with Cons.IH [OF p2] Cons.prems(2) show ?case by auto
qed

lemma process_items_groups:
  "process_items rt dd items = Inr dd' \<Longrightarrow> map_of dd' d = Some v \<Longrightarrow>
   update_days rt (entry_of dd d) (day_items rt d items) = Inr v"
proof (induction items arbitrary: dd)
  case Nil
  then show ?case by (simp add: day_items_def entry_of_def)
next
  case (Cons it items)
  from Cons.prems(1) obtain dd1 where p1: "process_item rt dd it = Inr dd1"
    and p2: "process_items rt dd1 items = Inr dd'"
    by (auto split: sum.splits)
  from p1 obtain d0 e' where d0: "item_date rt it = Inr d0"
    and upd: "update_day rt (entry_of dd d0) it = Inr e'"
    and dd1: "dd1 = AList.update d0 e' dd"
    by (rule process_item_Inr)
  have ih: "update_days rt (entry_of dd1 d) (day_items rt d items) = Inr v"
    by (rule Cons.IH [OF p2 Cons.prems(2)])
  show ?case
  proof (cases "d = d0")
    case True
    then show ?thesis using ih d0 upd dd1
      by (simp add: day_items_def entry_of_update)
  next
    case False
    then show ?thesis using ih d0 dd1
      by (auto simp add: day_items_def entry_of_update)
  qed
qed

lemma process_items_same_day:
  assumes "\<forall>it\<in>set its. item_date rt it = Inr d" and "its \<noteq> []"
  shows "process_items rt dd its =
     (case update_days rt (entry_of dd d) its of
        Inl e \<Rightarrow> Inl e | Inr v \<Rightarrow> Inr (AList.update d v dd))"
  using assms
proof (induction its arbitrary: dd)
  case Nil
  then show ?case by simp
next
  case (Cons it its)
  have d: "item_date rt it = Inr d" using Cons.prems by simp
  show ?case
  proof (cases "update_day rt (entry_of dd d) it")
    case (Inl e)
    then show ?thesis using d by (simp add: process_item_def)
  next
    case (Inr e')
    show ?thesis
    proof (cases "its = []")
      case True
      then show ?thesis using d Inr by (simp add: process_item_def)
    next
      case False
      have "process_items rt (AList.update d e' dd) its =
        (case update_days rt (entry_of (AList.update d e' dd) d) its of
           Inl e \<Rightarrow> Inl e | Inr v \<Rightarrow> Inr (AList.update d v (AList.update d e' dd)))"
        using Cons.IH [of "AList.update d e' dd"] Cons.prems False by simp
      then show ?thesis using d Inr
        by (simp add: process_item_def entry_of_update split: sum.splits)
    qed
  qed
qed

lemma distinct_fold_set_add: "distinct acc \<Longrightarrow> distinct (fold set_add xs acc)"
  by (induction xs arbitrary: acc) (auto simp: set_add_def)

lemma set_fold_set_add: "set (fold set_add xs acc) = set acc \<union> set xs"
  by (induction xs arbitrary: acc) (auto simp: set_add_def)

lemma distinct_first_seen: "distinct (first_seen xs)"
  by (simp add: first_seen_def distinct_fold_set_add)

lemma set_first_seen: "set (first_seen xs) = set xs"
  by (simp add: first_seen_def set_fold_set_add)

lemma aggregate_keys: "aggregate rt items = Inr dd \<Longrightarrow> map fst dd = first_seen (item_dates rt items)"
  by (simp add: aggregate_def first_seen_def process_items_keys)

lemma aggregate_groups:
  assumes "aggregate rt items = Inr dd" and "(d, v) \<in> set dd"
  shows "update_days rt new_day (day_items rt d items) = Inr v"
proof -
  have "distinct (map fst dd)"
    using aggregate_keys [OF assms(1)] by (simp add: distinct_first_seen)
  then have "map_of dd d = Some v" using assms(2) by simp
  from process_items_groups [OF assms(1) [unfolded aggregate_def] this]
  show ?thesis by (simp add: entry_of_def)
qed

lemma generate_insights_dates:
  "generate_insights rt ci dd = Inr ins \<Longrightarrow> map date ins = map fst dd"
  by (induction dd arbitrary: ins) (auto split: sum.splits simp: daily_insight_fields)

lemma daily_insight_temps:
  assumes "daily_insight rt ci entry = Inr i"
  shows "avg_temp i = py_round1 rt (float_round rt (temp_sum (snd entry) / of_nat (temp_count (snd entry))))"
    and "max_temp i = xround1 rt (day_max_temp (snd entry))"
    and "min_temp i = xround1 rt (day_min_temp (snd entry))"
  using assms
  by (auto simp: daily_insight_def py_truediv_def Let_def split: if_splits)

lemma update_day_Inr:
  assumes "update_day rt e it = Inr e'"
  obtains m t where "item_main it = Some m" "temp m = Some t"
    "temp_sum e' = py_add rt (temp_sum e) t" "temp_count e' = Suc (temp_count e)"
    "day_max_temp e' = py_max (day_max_temp e) t" "day_min_temp e' = py_min (day_min_temp e) t"
  using assms
  by (auto simp: update_day_def Let_def split: option.splits sum.splits)

lemma update_days_temps:
  "update_days rt e its = Inr e' \<Longrightarrow>
   temp_sum e' = foldl (py_add rt) (temp_sum e) (item_temps its)
   \<and> temp_count e' = temp_count e + length its
   \<and> length (item_temps its) = length its"
proof (induction its arbitrary: e)
  case Nil
  then show ?case by (simp add: item_temps_def)
next
  case (Cons it its)
  from Cons.prems obtain e1 where u1: "update_day rt e it = Inr e1"
    and u2: "update_days rt e1 its = Inr e'"
    by (auto split: sum.splits)
  from u1 obtain m t where mt: "item_main it = Some m" "temp m = Some t"
    "temp_sum e1 = py_add rt (temp_sum e) t" "temp_count e1 = Suc (temp_count e)"
    by (rule update_day_Inr)
  have "item_temps (it # its) = t # item_temps its"
    using mt by (simp add: item_temps_def)
  with Cons.IH [OF u2] mt show ?case by simp
qed

lemma generate_insights_mem:
  "generate_insights rt ci dd = Inr ins \<Longrightarrow> i \<in> set ins \<Longrightarrow>
   \<exists>entry\<in>set dd. daily_insight rt ci entry = Inr i"
  by (induction dd arbitrary: ins) (auto split: sum.splits)

lemma insight_of_group:
  assumes "analyze_forecast rt (Some fd) crop_type = Inr (Some insights)"
    and "fc_list fd = Some items" and "i \<in> set insights"
  obtains ci v where "crop_info_of crop_type = Inr ci"
    "update_days rt new_day (day_items rt (date i) items) = Inr v"
    "daily_insight rt ci (date i, v) = Inr i"
    "day_items rt (date i) items \<noteq> []"
proof -
  from assms(1,2) obtain ci dd where ci: "crop_info_of crop_type = Inr ci"
    and agg: "aggregate rt items = Inr dd" and gen: "generate_insights rt ci dd = Inr insights"
    by (auto elim!: analyze_forecast_Some)
  from generate_insights_mem [OF gen assms(3)] obtain d v
    where mem: "(d, v) \<in> set dd" and di: "daily_insight rt ci (d, v) = Inr i"
    by auto
  have d: "date i = d" using daily_insight_fields(1) [OF di] by simp
  have grp: "update_days rt new_day (day_items rt d items) = Inr v"
    by (rule aggregate_groups [OF agg mem])
  have "temp_count v \<noteq> 0" using daily_insight_fields(3) [OF di] by simp
  moreover have "temp_count v = length (day_items rt d items)"
    using update_days_temps [OF grp] by (simp add: new_day_def)
  ultimately have "day_items rt d items \<noteq> []" by auto
  with ci grp di d that show ?thesis by simp
qed

lemma insight_dates:
  assumes "analyze_forecast rt (Some fd) crop_type = Inr (Some insights)"
    and "fc_list fd = Some items"
  shows "map date insights = first_seen (item_dates rt items)"
proof -
  from assms obtain ci dd where agg: "aggregate rt items = Inr dd"
    and gen: "generate_insights rt ci dd = Inr insights"
    by (auto elim!: analyze_forecast_Some)
  show ?thesis
    using generate_insights_dates [OF gen] aggregate_keys [OF agg] by simp
qed

lemma mean_temp_exact:
  assumes "\<forall>x. float_round rt x = x"
  shows "mean_temp rt ts = sum_list ts / of_nat (length ts)"
proof -
  have "foldl (py_add rt) a ts = a + sum_list ts" for a
    using assms by (induction ts arbitrary: a) (simp_all add: py_add_def)
  then show ?thesis using assms by (simp add: mean_temp_def)
qed

subsection \<open>Order, missing fields and the run time\<close>





lemma process_items_temps:
  "process_items rt dd items = Inr dd' \<Longrightarrow> it \<in> set items \<Longrightarrow> \<not> lacks_temp it"
proof (induction items arbitrary: dd)
  case Nil
  then show ?case by simp
next
  case (Cons a items)
  from Cons.prems(1) obtain dd1 where p1: "process_item rt dd a = Inr dd1"
    and p2: "process_items rt dd1 items = Inr dd'"
    by (auto split: sum.splits)
  from p1 have "\<not> lacks_temp a"
    by (auto elim!: process_item_Inr update_day_Inr simp: lacks_temp_def)
  with Cons.IH [OF p2] Cons.prems(2) show ?case by auto
qed

lemma analyze_forecast_cases:
  "(\<exists>e. analyze_forecast rt (Some fd) crop_type = Inl e)
   \<or> (\<exists>ins. analyze_forecast rt (Some fd) crop_type = Inr (Some ins))"
  by (auto simp: analyze_forecast_def split: sum.splits option.splits)

lemma lacking_temp_is_error:
  assumes "fc_list fd = Some items" and "it \<in> set items" and "lacks_temp it"
  shows "\<exists>e. analyze_forecast rt (Some fd) crop_type = Inl e"
proof (rule ccontr)
  assume "\<not> ?thesis"
  with analyze_forecast_cases [of rt fd crop_type]
  obtain ins where "analyze_forecast rt (Some fd) crop_type = Inr (Some ins)"
    by blast
  with assms(1) obtain dd where "aggregate rt items = Inr dd"
    by (auto elim!: analyze_forecast_Some)
  from process_items_temps [OF this [unfolded aggregate_def] assms(2)] assms(3)
  show False by simp
qed

lemma settled_new_day: "rounding (float_round rt) \<Longrightarrow> settled rt new_day"
  by (simp add: settled_def new_day_def rounding_def)

lemma update_day_settled:
  assumes "rounding (float_round rt)" and "settled rt e" and "update_day rt e it = Inr e'"
  shows "settled rt e'"
  using assms
  by (auto simp: update_day_def settled_def rounding_def py_add_def Let_def
      split: option.splits sum.splits)

lemma update_day_explicit_rain:
  assumes "rounding (float_round rt)" and "settled rt e"
  shows "update_day rt e (explicit_rain it) = update_day rt e it"
  using assms
  by (auto simp: update_day_def explicit_rain_def settled_def rounding_def py_add_def Let_def
      split: option.splits sum.splits)

lemma item_date_explicit_rain: "item_date rt (explicit_rain it) = item_date rt it"
  by (simp add: item_date_def explicit_rain_def)

lemma set_update_subset: "set (AList.update d e dd) \<subseteq> insert (d, e) (set dd)"
  by (induction dd) auto

lemma entry_of_settled:
  assumes "rounding (float_round rt)" and "\<forall>p\<in>set dd. settled rt (snd p)"
  shows "settled rt (entry_of dd d)"
proof (cases "map_of dd d")
  case None
  then show ?thesis using assms(1) by (simp add: entry_of_def settled_new_day)
next
  case (Some e)
  then have "(d, e) \<in> set dd" by (rule map_of_SomeD)
  then show ?thesis using assms(2) Some by (force simp: entry_of_def)
qed

lemma process_items_explicit_rain:
  assumes "rounding (float_round rt)" and "\<forall>p\<in>set dd. settled rt (snd p)"
  shows "process_items rt dd (map explicit_rain items) = process_items rt dd items"
  using assms(2)
proof (induction items arbitrary: dd)
  case Nil
  then show ?case by simp
next
  case (Cons it items)
  have ent: "settled rt (entry_of dd d)" for d
    by (rule entry_of_settled [OF assms(1) Cons.prems])
  have step: "process_item rt dd (explicit_rain it) = process_item rt dd it"
    by (simp add: process_item_def item_date_explicit_rain
        update_day_explicit_rain [OF assms(1) ent] cong: sum.case_cong)
  show ?case
  proof (cases "process_item rt dd it")
    case (Inl e)
    then show ?thesis using step by simp
  next
    case (Inr dd1)
    then obtain d e' where upd: "update_day rt (entry_of dd d) it = Inr e'"
      and dd1: "dd1 = AList.update d e' dd"
      by (auto elim: process_item_Inr)
    have "settled rt e'"
      by (rule update_day_settled [OF assms(1) ent upd])
    then have "\<forall>p\<in>set dd1. settled rt (snd p)"
      using Cons.prems dd1 set_update_subset [of d e' dd] by auto
    from Cons.IH [OF this] show ?thesis using step Inr by simp
  qed
qed

lemma update_day_cong:
  assumes "float_round rt1 = float_round rt2"
  shows "update_day rt1 e it = update_day rt2 e it"
proof -
  have eq: "py_add rt1 = py_add rt2"
    using assms by (simp add: fun_eq_iff py_add_def)
  show ?thesis
    unfolding update_day_def eq by (rule refl)
qed

lemma item_date_cong:
  assumes "utc_offset rt1 = utc_offset rt2"
  shows "item_date rt1 it = item_date rt2 it"
proof -
  have eq: "fromtimestamp_date rt1 = fromtimestamp_date rt2"
    using assms by (simp add: fun_eq_iff fromtimestamp_date_def)
  show ?thesis
    unfolding item_date_def eq by (rule refl)
qed

lemma process_items_cong:
  assumes "float_round rt1 = float_round rt2" and "utc_offset rt1 = utc_offset rt2"
  shows "process_items rt1 dd items = process_items rt2 dd items"
proof (induction items arbitrary: dd)
  case Nil
  then show ?case by simp
next
  case (Cons it items)
  have "process_item rt1 dd it = process_item rt2 dd it"
    by (simp add: process_item_def item_date_cong [OF assms(2)] update_day_cong [OF assms(1)]
        cong: sum.case_cong)
  then show ?case using Cons.IH by (simp split: sum.splits)
qed

lemma xround1_cong:
  assumes "float_round rt1 = float_round rt2"
  shows "xround1 rt1 x = xround1 rt2 x"
  using assms by (cases x) (simp_all add: py_round1_def)

lemma daily_insight_cong:
  assumes "float_round rt1 = float_round rt2"
  shows "map_sum id without_conditions (daily_insight rt1 ci entry)
       = map_sum id without_conditions (daily_insight rt2 ci entry)"
  using assms
  by (simp add: daily_insight_def py_truediv_def py_round1_def without_conditions_def Let_def
      xround1_cong [OF assms])

lemma daily_insight_cong_full:
  assumes "float_round rt1 = float_round rt2" and "set_order rt1 = set_order rt2"
  shows "daily_insight rt1 ci entry = daily_insight rt2 ci entry"
  using assms
  by (simp add: daily_insight_def py_truediv_def py_round1_def Let_def
      xround1_cong [OF assms(1)])

lemma generate_insights_cong:
  assumes "float_round rt1 = float_round rt2"
  shows "map_sum id (map without_conditions) (generate_insights rt1 ci dd)
       = map_sum id (map without_conditions) (generate_insights rt2 ci dd)"
proof (induction dd)
  case Nil
  then show ?case by simp
next
  case (Cons entry dd)
  from daily_insight_cong [OF assms, of ci entry] Cons.IH show ?case
    by (auto split: sum.splits)
qed

lemma generate_insights_cong_full:
  assumes "float_round rt1 = float_round rt2" and "set_order rt1 = set_order rt2"
  shows "generate_insights rt1 ci dd = generate_insights rt2 ci dd"
  by (induction dd) (simp_all add: daily_insight_cong_full [OF assms] cong: sum.case_cong)

subsection \<open>Rounding\<close>

lemma round_half_even_bounds: "\<lfloor>x\<rfloor> \<le> round_half_even x" "round_half_even x \<le> \<lfloor>x\<rfloor> + 1"
  by (simp_all add: round_half_even_def Let_def)

lemma round_half_even_mono:
  assumes "x \<le> y"
  shows "round_half_even x \<le> round_half_even y"
proof (cases "\<lfloor>x\<rfloor> = \<lfloor>y\<rfloor>")
  case True
  then show ?thesis using assms
    by (auto simp: round_half_even_def Let_def)
next
  case False
  then have "\<lfloor>x\<rfloor> + 1 \<le> \<lfloor>y\<rfloor>"
    using floor_mono [OF assms] by linarith
  then show ?thesis
    using round_half_even_bounds(2) [of x] round_half_even_bounds(1) [of y] by linarith
qed

lemma round_half_even_of_int [simp]: "round_half_even (of_int m) = m"
  by (simp add: round_half_even_def)


lemma rounding_exact: "\<forall>x. f x = x \<Longrightarrow> rounding f"
  by (simp add: rounding_def)





subsection \<open>Double precision is a rounding\<close>

lemma pow2_powi: "pow2 k = 2 powi k"
  by (simp add: pow2_def power_int_def inverse_eq_divide power_one_over)

lemma pow2_pos [simp]: "0 < pow2 k"
  by (simp add: pow2_powi)

lemma pow2_add: "pow2 (i + j) = pow2 i * pow2 j"
  by (simp add: pow2_powi power_int_add)

lemma pow2_diff: "pow2 (i - j) = pow2 i / pow2 j"
  by (simp add: pow2_powi power_int_diff)

lemma pow2_mono: "i \<le> j \<Longrightarrow> pow2 i \<le> pow2 j"
  by (simp add: pow2_powi power_int_increasing)

lemma pow2_less_imp: "pow2 i < pow2 j \<Longrightarrow> i < j"
  using pow2_mono [of j i] by (cases "i < j") auto

lemma pow2_nat: "0 \<le> k \<Longrightarrow> pow2 k = 2 ^ nat k"
  by (simp add: pow2_def)

lemma ilog2_bounds:
  assumes "0 < x"
  shows "pow2 (ilog2 x) \<le> x" and "x < pow2 (ilog2 x + 1)"
proof -
  obtain a b where q: "quotient_of x = (a, b)" by (cases "quotient_of x")
  have b: "0 < b" using q by (rule quotient_of_denom_pos)
  have x: "x = of_int a / of_int b" using q by (rule quotient_of_div)
  have a: "0 < a" using assms b x by (simp add: zero_less_divide_iff)
  let ?la = "bitlen a" and ?lb = "bitlen b"
  have la: "1 \<le> ?la" "1 \<le> ?lb"
    using a b by (simp_all add: bitlen_def floorlog_def)
  from bitlen_bounds [OF a] have "(2::int) ^ nat (?la - 1) \<le> a" "a < 2 ^ nat ?la" by auto
  then have "(of_int (2 ^ nat (?la - 1)) :: rat) \<le> of_int a" "(of_int a :: rat) < of_int (2 ^ nat ?la)"
    by (simp_all only: of_int_le_iff of_int_less_iff)
  then have A: "pow2 (?la - 1) \<le> of_int a" "of_int a < pow2 ?la"
    using la by (simp_all add: pow2_nat)
  from bitlen_bounds [OF b] have "(2::int) ^ nat (?lb - 1) \<le> b" "b < 2 ^ nat ?lb" by auto
  then have "(of_int (2 ^ nat (?lb - 1)) :: rat) \<le> of_int b" "(of_int b :: rat) < of_int (2 ^ nat ?lb)"
    by (simp_all only: of_int_le_iff of_int_less_iff)
  then have B: "pow2 (?lb - 1) \<le> of_int b" "of_int b < pow2 ?lb"
    using la by (simp_all add: pow2_nat)
  let ?k = "?la - ?lb"
  have bpos: "(0::rat) < of_int b" using b by simp
  have "x < pow2 ?la / of_int b"
    unfolding x using A(2) bpos by (simp add: divide_strict_right_mono)
  also have "\<dots> \<le> pow2 ?la / pow2 (?lb - 1)"
    using B(1) bpos by (intro divide_left_mono) (simp_all add: less_imp_le)
  also have "\<dots> = pow2 (?k + 1)"
    by (simp add: pow2_diff [symmetric] algebra_simps)
  finally have up: "x < pow2 (?k + 1)" .
  have "pow2 (?k - 1) = pow2 (?la - 1) / pow2 ?lb"
    by (simp add: pow2_diff [symmetric] algebra_simps)
  also have "\<dots> \<le> of_int a / pow2 ?lb"
    using A(1) by (simp add: divide_right_mono less_imp_le)
  also have "\<dots> \<le> of_int a / of_int b"
    using B(2) a bpos by (intro divide_left_mono) (simp_all add: less_imp_le)
  finally have lo: "pow2 (?k - 1) \<le> x" by (simp add: x)
  have il: "ilog2 x = (if pow2 ?k \<le> x then ?k else ?k - 1)"
    by (simp add: ilog2_def q Let_def)
  show "pow2 (ilog2 x) \<le> x" using lo by (simp add: il)
  show "x < pow2 (ilog2 x + 1)" using up by (auto simp: il not_le)
qed

lemma ilog2_unique:
  assumes "pow2 k \<le> x" and "x < pow2 (k + 1)"
  shows "ilog2 x = k"
proof -
  have x: "0 < x" using assms(1) pow2_pos [of k] by linarith
  have "pow2 (ilog2 x) < pow2 (k + 1)"
    using ilog2_bounds(1) [OF x] assms(2) by linarith
  then have "ilog2 x < k + 1" by (rule pow2_less_imp)
  moreover have "pow2 k < pow2 (ilog2 x + 1)"
    using ilog2_bounds(2) [OF x] assms(1) by linarith
  then have "k < ilog2 x + 1" by (rule pow2_less_imp)
  ultimately show ?thesis by linarith
qed

lemma ilog2_mono:
  assumes "0 < x" and "x \<le> y"
  shows "ilog2 x \<le> ilog2 y"
proof -
  have y: "0 < y" using assms by linarith
  have "pow2 (ilog2 x) < pow2 (ilog2 y + 1)"
    using ilog2_bounds(1) [OF assms(1)] ilog2_bounds(2) [OF y] assms(2) by linarith
  then have "ilog2 x < ilog2 y + 1" by (rule pow2_less_imp)
  then show ?thesis by simp
qed

lemma round_half_even_neg: "round_half_even (- x) = - round_half_even x"
proof (cases "x = of_int \<lfloor>x\<rfloor>")
  case True
  then obtain n where "x = of_int n" ..
  then have "- x = of_int (- n)" by simp
  then show ?thesis using \<open>x = of_int n\<close> by (simp only: round_half_even_of_int)
next
  case False
  then have lt: "of_int \<lfloor>x\<rfloor> < x" using of_int_floor_le [of x] by linarith
  have "of_int (- \<lfloor>x\<rfloor> - 1) \<le> - x"
    using floor_correct [of x] by simp
  moreover have "- x < of_int (- \<lfloor>x\<rfloor> - 1) + 1"
    using lt by simp
  ultimately have "\<lfloor>- x\<rfloor> = - \<lfloor>x\<rfloor> - 1"
    by (rule floor_unique)
  then show ?thesis
    by (auto simp: round_half_even_def Let_def)
qed

lemma binary64_pos:
  assumes "0 < x"
  shows "binary64 x = of_int (round_half_even (x / pow2 (ilog2 x - 52))) * pow2 (ilog2 x - 52)"
  using assms by (simp add: binary64_def Let_def)

lemma binary64_neg: "binary64 (- x) = - binary64 x"
  by (simp add: binary64_def Let_def round_half_even_neg)

lemma mantissa_bounds:
  assumes "0 < x"
  shows "2 ^ 52 \<le> round_half_even (x / pow2 (ilog2 x - 52))"
    and "round_half_even (x / pow2 (ilog2 x - 52)) \<le> 2 ^ 53"
proof -
  let ?k = "ilog2 x"
  let ?y = "x / pow2 (?k - 52)"
  have "pow2 52 \<le> ?y"
    using ilog2_bounds(1) [OF assms] by (simp add: pow2_diff pos_le_divide_eq field_simps)
  then have lo: "(of_int (2 ^ 52) :: rat) \<le> ?y" by (simp add: pow2_def)
  have "pow2 (?k + 1) = pow2 53 * pow2 (?k - 52)"
    by (simp add: pow2_add [symmetric] add.commute)
  then have "?y < pow2 53"
    using ilog2_bounds(2) [OF assms] by (simp add: pos_divide_less_eq)
  then have hi: "?y < (of_int (2 ^ 53) :: rat)" by (simp add: pow2_def)
  from lo have "2 ^ 52 \<le> \<lfloor>?y\<rfloor>" by (simp only: le_floor_iff)
  then show "2 ^ 52 \<le> round_half_even ?y"
    using round_half_even_bounds(1) [of ?y] by linarith
  from hi have "\<lfloor>?y\<rfloor> < 2 ^ 53" by (simp only: floor_less_iff)
  then show "round_half_even ?y \<le> 2 ^ 53"
    using round_half_even_bounds(2) [of ?y] by linarith
qed

lemma binary64_range:
  assumes "0 < x"
  shows "pow2 (ilog2 x) \<le> binary64 x" and "binary64 x \<le> pow2 (ilog2 x + 1)"
proof -
  let ?e = "ilog2 x - 52"
  let ?m = "round_half_even (x / pow2 ?e)"
  have "(of_int (2 ^ 52) :: rat) \<le> of_int ?m" "(of_int ?m :: rat) \<le> of_int (2 ^ 53)"
    using mantissa_bounds [OF assms] by (simp_all only: of_int_le_iff)
  then have m: "pow2 52 \<le> of_int ?m" "of_int ?m \<le> pow2 53" by (simp_all add: pow2_def)
  have "pow2 (ilog2 x) = pow2 52 * pow2 ?e" by (simp add: pow2_add [symmetric])
  also have "\<dots> \<le> of_int ?m * pow2 ?e" using m(1) by (simp add: mult_right_mono less_imp_le)
  finally show "pow2 (ilog2 x) \<le> binary64 x" by (simp add: binary64_pos [OF assms])
  have "of_int ?m * pow2 ?e \<le> pow2 53 * pow2 ?e" using m(2) by (simp add: mult_right_mono less_imp_le)
  also have "\<dots> = pow2 (ilog2 x + 1)" by (simp add: pow2_add [symmetric] add.commute)
  finally show "binary64 x \<le> pow2 (ilog2 x + 1)" by (simp add: binary64_pos [OF assms])
qed

lemma binary64_pos_pos: "0 < x \<Longrightarrow> 0 < binary64 x"
  using binary64_range(1) [of x] pow2_pos [of "ilog2 x"] by linarith

lemma binary64_mono_pos:
  assumes "0 < x" and "x \<le> y"
  shows "binary64 x \<le> binary64 y"
proof -
  have y: "0 < y" using assms by linarith
  show ?thesis
  proof (cases "ilog2 x = ilog2 y")
    case True
    let ?e = "ilog2 y - 52"
    have "x / pow2 ?e \<le> y / pow2 ?e"
      using assms(2) by (simp add: divide_right_mono less_imp_le)
    then have "round_half_even (x / pow2 ?e) \<le> round_half_even (y / pow2 ?e)"
      by (rule round_half_even_mono)
    then have "(of_int (round_half_even (x / pow2 ?e)) :: rat) * pow2 ?e
      \<le> of_int (round_half_even (y / pow2 ?e)) * pow2 ?e"
      by (simp add: mult_right_mono less_imp_le)
    then show ?thesis
      by (simp add: binary64_pos [OF assms(1)] binary64_pos [OF y] True)
  next
    case False
    then have "ilog2 x + 1 \<le> ilog2 y"
      using ilog2_mono [OF assms] by linarith
    then have "pow2 (ilog2 x + 1) \<le> pow2 (ilog2 y)" by (rule pow2_mono)
    then show ?thesis
      using binary64_range(2) [OF assms(1)] binary64_range(1) [OF y] by linarith
  qed
qed

lemma binary64_mono:
  assumes "x \<le> y"
  shows "binary64 x \<le> binary64 y"
proof -
  consider "0 < x" | "x \<le> 0" "0 \<le> y" | "y < 0" by linarith
  then show ?thesis
  proof cases
    case 1
    then show ?thesis using assms by (rule binary64_mono_pos)
  next
    case 2
    have "binary64 x \<le> 0"
    proof (cases "x = 0")
      case True
      then show ?thesis by (simp add: binary64_def)
    next
      case False
      then have "0 < binary64 (- x)" using 2 by (intro binary64_pos_pos) simp
      then show ?thesis by (simp add: binary64_neg)
    qed
    moreover have "0 \<le> binary64 y"
    proof (cases "y = 0")
      case True
      then show ?thesis by (simp add: binary64_def)
    next
      case False
      then have "0 < binary64 y" using 2 by (intro binary64_pos_pos) simp
      then show ?thesis by simp
    qed
    ultimately show ?thesis by linarith
  next
    case 3
    then have "binary64 (- y) \<le> binary64 (- x)"
      using assms by (intro binary64_mono_pos) simp_all
    then show ?thesis by (simp add: binary64_neg)
  qed
qed

lemma binary64_fixed:
  assumes "pow2 52 \<le> of_int m" and "(of_int m :: rat) < pow2 53"
  shows "binary64 (of_int m * pow2 e) = of_int m * pow2 e"
proof -
  let ?z = "of_int m * pow2 e :: rat"
  have mpos: "(0::rat) < of_int m" using assms(1) pow2_pos [of 52] by linarith
  have z: "0 < ?z" using mpos by simp
  have "pow2 (e + 52) \<le> ?z"
    using assms(1) by (simp add: pow2_add mult_right_mono less_imp_le mult.commute)
  moreover have "?z < pow2 (e + 52 + 1)"
  proof -
    have "?z < pow2 53 * pow2 e" using assms(2) by (simp add: mult_strict_right_mono)
    also have "\<dots> = pow2 (e + 52 + 1)" by (simp add: pow2_add [symmetric] algebra_simps)
    finally show ?thesis .
  qed
  ultimately have "ilog2 ?z = e + 52" by (rule ilog2_unique)
  then show ?thesis
    by (simp add: binary64_pos [OF z])
qed

lemma binary64_idem_pos:
  assumes "0 < x"
  shows "binary64 (binary64 x) = binary64 x"
proof -
  let ?e = "ilog2 x - 52"
  let ?m = "round_half_even (x / pow2 ?e)"
  have bx: "binary64 x = of_int ?m * pow2 ?e" by (rule binary64_pos [OF assms])
  have lo: "2 ^ 52 \<le> ?m" and hi: "?m \<le> 2 ^ 53" by (rule mantissa_bounds [OF assms])+
  show ?thesis
  proof (cases "?m = 2 ^ 53")
    case True
    have p1: "pow2 1 = 2" by (simp add: pow2_def)
    have pe: "pow2 (?e + 1) = pow2 ?e * pow2 1" by (rule pow2_add)
    have "binary64 x = of_int (2 ^ 52) * pow2 (?e + 1)"
      unfolding bx True pe p1 by simp
    moreover have "binary64 (of_int (2 ^ 52) * pow2 (?e + 1)) = of_int (2 ^ 52) * pow2 (?e + 1)"
      by (rule binary64_fixed) (simp_all add: pow2_def)
    ultimately show ?thesis by simp
  next
    case False
    with hi have "?m < 2 ^ 53" by linarith
    then have "(of_int ?m :: rat) < of_int (2 ^ 53)" by (simp only: of_int_less_iff)
    moreover from lo have "(of_int (2 ^ 52) :: rat) \<le> of_int ?m" by (simp only: of_int_le_iff)
    ultimately have "binary64 (of_int ?m * pow2 ?e) = of_int ?m * pow2 ?e"
      by (intro binary64_fixed) (simp_all add: pow2_def)
    then show ?thesis by (simp add: bx)
  qed
qed

lemma binary64_idem: "binary64 (binary64 x) = binary64 x"
proof -
  consider "0 < x" | "x = 0" | "x < 0" by linarith
  then show ?thesis
  proof cases
    case 1
    then show ?thesis by (rule binary64_idem_pos)
  next
    case 2
    then show ?thesis by (simp add: binary64_def)
  next
    case 3
    then have "binary64 (binary64 (- x)) = binary64 (- x)"
      by (intro binary64_idem_pos) simp
    then show ?thesis by (simp add: binary64_neg)
  qed
qed

lemma rounding_binary64: "rounding binary64"
  by (simp add: rounding_def binary64_idem binary64_mono) (simp add: binary64_def)

subsection \<open>Temperature advisories\<close>

text \<open>
  C1. Take a successful run of \<open>analyze_forecast\<close>, its daily summaries and its insights,
  entry by entry. The insight of a summary whose maximum temperature exceeds the risk
  temperature of the crop contains the high temperature warning and does not contain the
  low temperature warning; and the two warnings together occur at most once in the
  recommendations of any day.
\<close>

theorem heat_excludes_cold:
  assumes "analyze_forecast rt (Some fd) crop_type = Inr (Some insights)"
    and "fc_list fd = Some items"
    and "aggregate rt items = Inr daily_data"
    and "crop_info_of crop_type = Inr crop_info"
  shows "list_all2 (\<lambda>entry i.
           date i = fst entry
           \<and> (xgt (day_max_temp (snd entry)) (risk_temp crop_info) \<longrightarrow>
                heat_warning \<in> set (recommendations i)
                \<and> cold_warning \<notin> set (recommendations i))
           \<and> length (filter (\<lambda>r. r = heat_warning \<or> r = cold_warning) (recommendations i)) \<le> 1)
         daily_data insights"
proof -
  from assms have gen: "generate_insights rt crop_info daily_data = Inr insights"
    by (auto elim!: analyze_forecast_Some)
  have "list_all2 (\<lambda>entry i. daily_insight rt crop_info entry = Inr i) daily_data insights"
    by (rule generate_insights_all2 [OF gen])
  then show ?thesis
  proof (rule list_all2_mono)
    fix entry i
    assume di: "daily_insight rt crop_info entry = Inr i"
    show "date i = fst entry
           \<and> (xgt (day_max_temp (snd entry)) (risk_temp crop_info) \<longrightarrow>
                heat_warning \<in> set (recommendations i)
                \<and> cold_warning \<notin> set (recommendations i))
           \<and> length (filter (\<lambda>r. r = heat_warning \<or> r = cold_warning) (recommendations i)) \<le> 1"
      using advice_distinct
      by (simp add: daily_insight_fields [OF di] temperature_checks_def rainfall_analysis_def
          special_conditions_def)
  qed
qed

theorem heat_excludes_cold_witness:
  "analyze_forecast (python64 id) (Some \<lparr>fc_list = Some hot_day_items\<rparr>) ''maize''
     = Inr (Some [\<lparr>date = 0, avg_temp = 36, max_temp = Fin 36, min_temp = Fin 36,
          total_rain = 0, avg_humidity = 50, conditions = [],
          recommendations = [heat_warning, irrigation_advice]\<rparr>])
   \<and> aggregate (python64 id) hot_day_items
     = Inr [(0, \<lparr>temp_sum = 36, temp_count = 1, rain_sum = 0, humidity_sum = 50,
          day_max_temp = Fin 36, day_min_temp = Fin 36, weather_conditions = []\<rparr>)]
   \<and> crop_info_of ''maize''
     = Inr \<lparr>optimal_temp = (20, 30), water_needs = 500, risk_temp = 35\<rparr>
   \<and> list_all2 (\<lambda>entry i.
           date i = fst entry
           \<and> (xgt (day_max_temp (snd entry)) 35 \<longrightarrow>
                heat_warning \<in> set (recommendations i)
                \<and> cold_warning \<notin> set (recommendations i))
           \<and> length (filter (\<lambda>r. r = heat_warning \<or> r = cold_warning) (recommendations i)) \<le> 1)
         [(0, \<lparr>temp_sum = 36, temp_count = 1, rain_sum = 0, humidity_sum = 50,
          day_max_temp = Fin 36, day_min_temp = Fin 36, weather_conditions = []\<rparr>)]
         [\<lparr>date = 0, avg_temp = 36, max_temp = Fin 36, min_temp = Fin 36,
          total_rain = 0, avg_humidity = 50, conditions = [],
          recommendations = [heat_warning, irrigation_advice]\<rparr>]"
proof -
  have h1: "analyze_forecast (python64 id) (Some \<lparr>fc_list = Some hot_day_items\<rparr>) ''maize''
     = Inr (Some [\<lparr>date = 0, avg_temp = 36, max_temp = Fin 36, min_temp = Fin 36,
          total_rain = 0, avg_humidity = 50, conditions = [],
          recommendations = [heat_warning, irrigation_advice]\<rparr>])"
    by code_simp
  have h2: "fc_list \<lparr>fc_list = Some hot_day_items\<rparr> = Some hot_day_items"
    by simp
  have h3: "aggregate (python64 id) hot_day_items
     = Inr [(0, \<lparr>temp_sum = 36, temp_count = 1, rain_sum = 0, humidity_sum = 50,
          day_max_temp = Fin 36, day_min_temp = Fin 36, weather_conditions = []\<rparr>)]"
    by code_simp
  note h4 = crop_info_of_maize
  from heat_excludes_cold [OF h1 h2 h3 h4] h1 h3 h4 show ?thesis
    by simp
qed

subsection \<open>Rainfall advisories\<close>

text \<open>
  C2. In a successful run, the insight of a daily summary contains the irrigation advice
  exactly when the rain total of the summary is below 5, and the drainage advice exactly
  when the total is above 20. So a total of exactly 5 gives no irrigation advice and a
  total of exactly 20 gives no drainage advice.
\<close>

theorem rain_thresholds:
  assumes "analyze_forecast rt (Some fd) crop_type = Inr (Some insights)"
    and "fc_list fd = Some items"
    and "aggregate rt items = Inr daily_data"
  shows "list_all2 (\<lambda>entry i.
           date i = fst entry
           \<and> (irrigation_advice \<in> set (recommendations i) \<longleftrightarrow> rain_sum (snd entry) < 5)
           \<and> (drainage_advice \<in> set (recommendations i) \<longleftrightarrow> 20 < rain_sum (snd entry))
           \<and> (rain_sum (snd entry) = 5 \<longrightarrow> irrigation_advice \<notin> set (recommendations i))
           \<and> (rain_sum (snd entry) = 20 \<longrightarrow> drainage_advice \<notin> set (recommendations i)))
         daily_data insights"
proof -
  from assms obtain ci where gen: "generate_insights rt ci daily_data = Inr insights"
    by (auto elim!: analyze_forecast_Some)
  have "list_all2 (\<lambda>entry i. daily_insight rt ci entry = Inr i) daily_data insights"
    by (rule generate_insights_all2 [OF gen])
  then show ?thesis
  proof (rule list_all2_mono)
    fix entry i
    assume di: "daily_insight rt ci entry = Inr i"
    show "date i = fst entry
           \<and> (irrigation_advice \<in> set (recommendations i) \<longleftrightarrow> rain_sum (snd entry) < 5)
           \<and> (drainage_advice \<in> set (recommendations i) \<longleftrightarrow> 20 < rain_sum (snd entry))
           \<and> (rain_sum (snd entry) = 5 \<longrightarrow> irrigation_advice \<notin> set (recommendations i))
           \<and> (rain_sum (snd entry) = 20 \<longrightarrow> drainage_advice \<notin> set (recommendations i))"
      using advice_distinct
      by (simp add: daily_insight_fields [OF di] temperature_checks_def rainfall_analysis_def
          special_conditions_def)
  qed
qed

theorem rain_thresholds_witness:
  "analyze_forecast (python64 id) (Some \<lparr>fc_list = Some boundary_items\<rparr>) ''maize''
     = Inr (Some [\<lparr>date = 0, avg_temp = 25, max_temp = Fin 25, min_temp = Fin 25,
          total_rain = 5, avg_humidity = 50, conditions = [], recommendations = []\<rparr>,
        \<lparr>date = 1, avg_temp = 25, max_temp = Fin 25, min_temp = Fin 25,
          total_rain = 20, avg_humidity = 50, conditions = [], recommendations = []\<rparr>])
   \<and> aggregate (python64 id) boundary_items
     = Inr [(0, \<lparr>temp_sum = 50, temp_count = 2, rain_sum = 5, humidity_sum = 100,
          day_max_temp = Fin 25, day_min_temp = Fin 25, weather_conditions = []\<rparr>),
        (1, \<lparr>temp_sum = 25, temp_count = 1, rain_sum = 20, humidity_sum = 50,
          day_max_temp = Fin 25, day_min_temp = Fin 25, weather_conditions = []\<rparr>)]
   \<and> list_all2 (\<lambda>entry i.
           date i = fst entry
           \<and> (irrigation_advice \<in> set (recommendations i) \<longleftrightarrow> rain_sum (snd entry) < 5)
           \<and> (drainage_advice \<in> set (recommendations i) \<longleftrightarrow> 20 < rain_sum (snd entry))
           \<and> (rain_sum (snd entry) = 5 \<longrightarrow> irrigation_advice \<notin> set (recommendations i))
           \<and> (rain_sum (snd entry) = 20 \<longrightarrow> drainage_advice \<notin> set (recommendations i)))
        [(0, \<lparr>temp_sum = 50, temp_count = 2, rain_sum = 5, humidity_sum = 100,
          day_max_temp = Fin 25, day_min_temp = Fin 25, weather_conditions = []\<rparr>),
        (1, \<lparr>temp_sum = 25, temp_count = 1, rain_sum = 20, humidity_sum = 50,
          day_max_temp = Fin 25, day_min_temp = Fin 25, weather_conditions = []\<rparr>)]
        [\<lparr>date = 0, avg_temp = 25, max_temp = Fin 25, min_temp = Fin 25,
          total_rain = 5, avg_humidity = 50, conditions = [], recommendations = []\<rparr>,
        \<lparr>date = 1, avg_temp = 25, max_temp = Fin 25, min_temp = Fin 25,
          total_rain = 20, avg_humidity = 50, conditions = [], recommendations = []\<rparr>]"
proof -
  have h1: "analyze_forecast (python64 id) (Some \<lparr>fc_list = Some boundary_items\<rparr>) ''maize''
     = Inr (Some [\<lparr>date = 0, avg_temp = 25, max_temp = Fin 25, min_temp = Fin 25,
          total_rain = 5, avg_humidity = 50, conditions = [], recommendations = []\<rparr>,
        \<lparr>date = 1, avg_temp = 25, max_temp = Fin 25, min_temp = Fin 25,
          total_rain = 20, avg_humidity = 50, conditions = [], recommendations = []\<rparr>])"
    by code_simp
  have h2: "fc_list \<lparr>fc_list = Some boundary_items\<rparr> = Some boundary_items"
    by simp
  have h3: "aggregate (python64 id) boundary_items
     = Inr [(0, \<lparr>temp_sum = 50, temp_count = 2, rain_sum = 5, humidity_sum = 100,
          day_max_temp = Fin 25, day_min_temp = Fin 25, weather_conditions = []\<rparr>),
        (1, \<lparr>temp_sum = 25, temp_count = 1, rain_sum = 20, humidity_sum = 50,
          day_max_temp = Fin 25, day_min_temp = Fin 25, weather_conditions = []\<rparr>)]"
    by code_simp
  from rain_thresholds [OF h1 h2 h3] h1 h3 show ?thesis
    by simp
qed

subsection \<open>Empty input\<close>

text \<open>
  C3. For a payload whose list of readings is empty, \<open>analyze_forecast\<close> returns the empty
  list of insights, not an error, and the renderer turns the empty list into the message
  that no weather data is available.
\<close>

theorem empty_input_no_data:
  "analyze_forecast rt (Some \<lparr>fc_list = Some []\<rparr>) crop_type = Inr (Some [])
   \<and> format_insights_for_farmers rt (Some []) crop_type
     = ''No weather data available. Please try again later.''"
  by (simp add: analyze_forecast_def aggregate_def crop_info_of_def crop_data_def
      format_insights_for_farmers_def no_data_message_def)

text \<open>
  A payload that is \<^verbatim>\<open>None\<close> or has no keys is answered by \<^verbatim>\<open>None\<close>, which the renderer
  turns into the same message.
\<close>

lemma absent_payload_no_data:
  "analyze_forecast rt None crop_type = Inr None
   \<and> format_insights_for_farmers rt None crop_type = no_data_message"
  by (simp add: analyze_forecast_def format_insights_for_farmers_def)

subsection \<open>Unknown crops\<close>

text \<open>
  C7. A crop name outside the table is given the profile of maize, and
  \<open>analyze_forecast\<close> returns for it what it returns for maize, on every payload.
\<close>

theorem unknown_crop_is_maize:
  assumes "crop_type \<notin> {''maize'', ''tea'', ''beans''}"
  shows "crop_info_of crop_type
           = Inr \<lparr>optimal_temp = (20, 30), water_needs = 500, risk_temp = 35\<rparr>
     \<and> analyze_forecast rt forecast_data crop_type
           = analyze_forecast rt forecast_data ''maize''"
proof -
  have "crop_data crop_type = None"
    using assms by (simp add: crop_data_def)
  then have "crop_info_of crop_type = crop_info_of ''maize''"
    by (simp add: crop_info_of_def crop_data_def)
  then show ?thesis
    by (simp add: analyze_forecast_def crop_info_of_maize split: option.splits)
qed

theorem unknown_crop_is_maize_witness:
  "''wheat'' \<notin> {''maize'', ''tea'', ''beans''}
   \<and> crop_info_of ''wheat''
       = Inr \<lparr>optimal_temp = (20, 30), water_needs = 500, risk_temp = 35\<rparr>
   \<and> analyze_forecast (python64 id) (Some \<lparr>fc_list = Some hot_day_items\<rparr>) ''wheat''
       = analyze_forecast (python64 id) (Some \<lparr>fc_list = Some hot_day_items\<rparr>) ''maize''"
proof -
  have h: "''wheat'' \<notin> {''maize'', ''tea'', ''beans''}"
    by simp
  from unknown_crop_is_maize [OF h] h show ?thesis
    by blast
qed

subsection \<open>The order of the days\<close>







subsection \<open>The average temperature\<close>

text \<open>
  C5, as stated: the reported \<open>avg_temp\<close> of a date is the arithmetic mean of the
  temperatures of its readings. It fails: the readings of the second of January in
  \<open>two_days_items\<close> have the temperatures 20.25 and 20.5, whose mean is 20.375, and the
  insight reports 20.4.
\<close>

theorem avg_temp_is_mean_counterexample:
  "map_sum id (map_option (map avg_temp))
     (analyze_forecast (python64 id) (Some \<lparr>fc_list = Some two_days_items\<rparr>) ''maize'')
     = Inr (Some [binary64 (102 / 5), 36])
   \<and> item_temps (day_items (python64 id) 1 two_days_items) = [81 / 4, 41 / 2]
   \<and> binary64 (102 / 5) \<noteq> (81 / 4 + 41 / 2) / 2"
proof -
  have "analyze_forecast (python64 id) (Some \<lparr>fc_list = Some two_days_items\<rparr>) ''maize''
     = Inr (Some [\<lparr>date = 1, avg_temp = binary64 (102 / 5), max_temp = Fin (41 / 2), min_temp = Fin (binary64 (101 / 5)),
         total_rain = 7, avg_humidity = 65, conditions = ''Rain, Clouds, Thunderstorm'',
         recommendations = [thunderstorm_advice]\<rparr>,
        \<lparr>date = 0, avg_temp = 36, max_temp = Fin 36, min_temp = Fin 36,
         total_rain = 0, avg_humidity = 50, conditions = [],
         recommendations = [heat_warning, irrigation_advice]\<rparr>])"
    by code_simp
  moreover have "item_temps (day_items (python64 id) 1 two_days_items) = [81 / 4, 41 / 2]"
    by code_simp
  moreover have "binary64 (102 / 5) \<noteq> (81 / 4 + 41 / 2) / 2"
    by code_simp
  ultimately show ?thesis
    by simp
qed

text \<open>
  C5, amended. The group of a date in the insights is not empty, and the reported
  \<open>avg_temp\<close> is the mean of the temperatures of the group (their sum, accumulated in the
  order of the payload, divided by their number) rounded to one decimal by
  \<^verbatim>\<open>round(_, 1)\<close>. In exact arithmetic this is the arithmetic mean rounded to the
  nearest tenth, a tie to the even tenth.
\<close>

theorem avg_temp_is_rounded_mean:
  assumes "analyze_forecast rt (Some fd) crop_type = Inr (Some insights)"
    and "fc_list fd = Some items"
    and "i \<in> set insights"
  shows "day_items rt (date i) items \<noteq> []
    \<and> avg_temp i = py_round1 rt (mean_temp rt (item_temps (day_items rt (date i) items)))
    \<and> ((\<forall>x. float_round rt x = x) \<longrightarrow>
         avg_temp i = of_int (round_half_even
           (sum_list (item_temps (day_items rt (date i) items))
              / of_nat (length (item_temps (day_items rt (date i) items))) * 10)) / 10)"
proof -
  from assms obtain ci v where grp: "update_days rt new_day (day_items rt (date i) items) = Inr v"
    and di: "daily_insight rt ci (date i, v) = Inr i"
    and ne: "day_items rt (date i) items \<noteq> []"
    by (rule insight_of_group)
  let ?ts = "item_temps (day_items rt (date i) items)"
  from update_days_temps [OF grp]
  have s: "temp_sum v = foldl (py_add rt) 0 ?ts" and c: "temp_count v = length ?ts"
    by (simp_all add: new_day_def)
  have avg: "avg_temp i = py_round1 rt (mean_temp rt ?ts)"
    using daily_insight_temps(1) [OF di] s c by (simp add: mean_temp_def)
  show ?thesis
    using ne avg by (auto simp: mean_temp_exact py_round1_def)
qed

theorem avg_temp_is_rounded_mean_witness:
  "analyze_forecast (exact id) (Some \<lparr>fc_list = Some two_days_items\<rparr>) ''maize''
     = Inr (Some [\<lparr>date = 1, avg_temp = 102 / 5, max_temp = Fin (41 / 2), min_temp = Fin (101 / 5),
         total_rain = 7, avg_humidity = 65, conditions = ''Rain, Clouds, Thunderstorm'',
         recommendations = [thunderstorm_advice]\<rparr>,
        \<lparr>date = 0, avg_temp = 36, max_temp = Fin 36, min_temp = Fin 36,
         total_rain = 0, avg_humidity = 50, conditions = [],
         recommendations = [heat_warning, irrigation_advice]\<rparr>])
   \<and> (\<forall>x. float_round (exact id) x = x)
   \<and> item_temps (day_items (exact id) 1 two_days_items) = [81 / 4, 41 / 2]
   \<and> (102 / 5 :: rat) = py_round1 (exact id) (mean_temp (exact id) [81 / 4, 41 / 2])
   \<and> (102 / 5 :: rat) = of_int (round_half_even ((81 / 4 + 41 / 2) / 2 * 10)) / 10"
proof -
  have h1: "analyze_forecast (exact id) (Some \<lparr>fc_list = Some two_days_items\<rparr>) ''maize''
     = Inr (Some [\<lparr>date = 1, avg_temp = 102 / 5, max_temp = Fin (41 / 2), min_temp = Fin (101 / 5),
         total_rain = 7, avg_humidity = 65, conditions = ''Rain, Clouds, Thunderstorm'',
         recommendations = [thunderstorm_advice]\<rparr>,
        \<lparr>date = 0, avg_temp = 36, max_temp = Fin 36, min_temp = Fin 36,
         total_rain = 0, avg_humidity = 50, conditions = [],
         recommendations = [heat_warning, irrigation_advice]\<rparr>])"
    by code_simp
  have h2: "fc_list \<lparr>fc_list = Some two_days_items\<rparr> = Some two_days_items"
    by simp
  have h3: "\<lparr>date = 1, avg_temp = 102 / 5, max_temp = Fin (41 / 2), min_temp = Fin (101 / 5),
         total_rain = 7, avg_humidity = 65, conditions = ''Rain, Clouds, Thunderstorm'',
         recommendations = [thunderstorm_advice]\<rparr>
     \<in> set [\<lparr>date = 1, avg_temp = 102 / 5, max_temp = Fin (41 / 2), min_temp = Fin (101 / 5),
         total_rain = 7, avg_humidity = 65, conditions = ''Rain, Clouds, Thunderstorm'',
         recommendations = [thunderstorm_advice]\<rparr>,
        \<lparr>date = 0, avg_temp = 36, max_temp = Fin 36, min_temp = Fin 36,
         total_rain = 0, avg_humidity = 50, conditions = [],
         recommendations = [heat_warning, irrigation_advice]\<rparr>]"
    by simp
  have h4: "\<forall>x. float_round (exact id) x = x"
    by (simp add: exact_def)
  have h5: "item_temps (day_items (exact id) 1 two_days_items) = [81 / 4, 41 / 2]"
    by code_simp
  from avg_temp_is_rounded_mean [OF h1 h2 h3] h1 h4 h5 show ?thesis
    by simp
qed

subsection \<open>Missing fields\<close>

text \<open>
  C6. A payload with a reading that has no temperature makes \<open>analyze_forecast\<close> return
  an error; nothing is put in the place of the temperature. A reading without
  precipitation is analysed as the same reading with a precipitation of 0: the two payloads
  have the same result, so the missing field adds no error. The rounding of the
  run time is assumed to keep 0 and the numbers it returns, as \<open>binary64\<close> does.
\<close>

theorem missing_temp_fails_missing_rain_is_zero:
  assumes "rounding (float_round rt)"
  shows "(fc_list fd = Some items \<and> (\<exists>it\<in>set items. lacks_temp it) \<longrightarrow>
            (\<exists>e. analyze_forecast rt (Some fd) crop_type = Inl e))
    \<and> analyze_forecast rt (Some \<lparr>fc_list = Some (map explicit_rain items')\<rparr>) crop_type
        = analyze_forecast rt (Some \<lparr>fc_list = Some items'\<rparr>) crop_type"
proof -
  have "aggregate rt (map explicit_rain items') = aggregate rt items'"
    unfolding aggregate_def by (rule process_items_explicit_rain [OF assms]) simp
  then have "analyze_forecast rt (Some \<lparr>fc_list = Some (map explicit_rain items')\<rparr>) crop_type
        = analyze_forecast rt (Some \<lparr>fc_list = Some items'\<rparr>) crop_type"
    by (simp add: analyze_forecast_def cong: sum.case_cong)
  then show ?thesis
    using lacking_temp_is_error [of fd items _ rt crop_type] by blast
qed

theorem missing_temp_fails_missing_rain_is_zero_witness:
  "rounding (float_round (python64 id))
   \<and> lacks_temp no_temp_item
   \<and> analyze_forecast (python64 id) (Some \<lparr>fc_list = Some [no_temp_item]\<rparr>) ''maize'' = Inl (KeyError ''temp'')
   \<and> map explicit_rain dry_items = [reading 0 25 50 0 [], reading 3600 26 50 0 []]
   \<and> analyze_forecast (python64 id) (Some \<lparr>fc_list = Some dry_items\<rparr>) ''maize''
     = analyze_forecast (python64 id) (Some \<lparr>fc_list = Some [reading 0 25 50 0 [], reading 3600 26 50 0 []]\<rparr>) ''maize''
   \<and> analyze_forecast (python64 id) (Some \<lparr>fc_list = Some dry_items\<rparr>) ''maize''
     = Inr (Some [\<lparr>date = 0, avg_temp = 51 / 2, max_temp = Fin 26, min_temp = Fin 25,
         total_rain = 0, avg_humidity = 50, conditions = [],
         recommendations = [irrigation_advice]\<rparr>])"
proof -
  have h1: "rounding (float_round (python64 id))"
    by (simp add: python64_def rounding_binary64)
  have h2: "lacks_temp no_temp_item"
    by (simp add: lacks_temp_def no_temp_item_def)
  have h3: "analyze_forecast (python64 id) (Some \<lparr>fc_list = Some [no_temp_item]\<rparr>) ''maize'' = Inl (KeyError ''temp'')"
    by code_simp
  have h4: "map explicit_rain dry_items = [reading 0 25 50 0 [], reading 3600 26 50 0 []]"
    by (simp add: dry_items_def explicit_rain_def reading_def)
  have h5: "analyze_forecast (python64 id) (Some \<lparr>fc_list = Some dry_items\<rparr>) ''maize''
     = Inr (Some [\<lparr>date = 0, avg_temp = 51 / 2, max_temp = Fin 26, min_temp = Fin 25,
         total_rain = 0, avg_humidity = 50, conditions = [],
         recommendations = [irrigation_advice]\<rparr>])"
    by code_simp
  from missing_temp_fails_missing_rain_is_zero
         [OF h1, of "\<lparr>fc_list = Some [no_temp_item]\<rparr>" "[no_temp_item]" "''maize''" dry_items]
       h1 h2 h3 h4 h5
  show ?thesis
    by simp
qed

subsection \<open>One summary per calendar date\<close>

text \<open>
  C8. In a successful run the dates of the insights are distinct, and every reading has
  exactly one insight of its date. The insight of a date is what \<open>analyze_forecast\<close>
  returns for the readings of that date alone, so it is computed from them only. The
  number of insights is the number of distinct dates: readings of exactly two dates give
  exactly two insights.
\<close>

theorem one_insight_per_date:
  assumes "analyze_forecast rt (Some fd) crop_type = Inr (Some insights)"
    and "fc_list fd = Some items"
  shows "distinct (map date insights)
    \<and> (\<forall>it\<in>set items. \<exists>!i. i \<in> set insights \<and> item_date rt it = Inr (date i))
    \<and> (\<forall>i\<in>set insights.
          analyze_forecast rt (Some \<lparr>fc_list = Some (day_items rt (date i) items)\<rparr>) crop_type
            = Inr (Some [i]))
    \<and> length insights = card (set (item_dates rt items))"
proof -
  have dates: "map date insights = first_seen (item_dates rt items)"
    by (rule insight_dates [OF assms])
  then have dist: "distinct (map date insights)"
    by (simp add: distinct_first_seen)
  have sets: "date ` set insights = set (item_dates rt items)"
    using dates set_first_seen [of "item_dates rt items"] by (metis set_map)
  from assms obtain ci dd where ci: "crop_info_of crop_type = Inr ci"
    and agg: "aggregate rt items = Inr dd"
    by (auto elim!: analyze_forecast_Some)
  have one: "\<exists>!i. i \<in> set insights \<and> item_date rt it = Inr (date i)" if "it \<in> set items" for it
  proof -
    from process_items_dated [OF agg [unfolded aggregate_def] that]
    obtain d where d: "item_date rt it = Inr d" by blast
    then have "d \<in> set (item_dates rt items)"
      using that by (force simp: item_dates_def)
    then have "d \<in> date ` set insights"
      using sets by simp
    then obtain i where i: "i \<in> set insights" "date i = d"
      by auto
    show ?thesis
    proof (rule ex1I [of _ i])
      show "i \<in> set insights \<and> item_date rt it = Inr (date i)" using i d by simp
    next
      fix j assume "j \<in> set insights \<and> item_date rt it = Inr (date j)"
      then have "j \<in> set insights" "date j = date i" using d i by simp_all
      then show "j = i" using dist i(1) by (meson distinct_map inj_onD)
    qed
  qed
  have sub: "analyze_forecast rt (Some \<lparr>fc_list = Some (day_items rt (date i) items)\<rparr>) crop_type
            = Inr (Some [i])" if "i \<in> set insights" for i
  proof -
    from assms that obtain ci' v where ci': "crop_info_of crop_type = Inr ci'"
      and grp: "update_days rt new_day (day_items rt (date i) items) = Inr v"
      and di: "daily_insight rt ci' (date i, v) = Inr i"
      and ne: "day_items rt (date i) items \<noteq> []"
      by (rule insight_of_group)
    have "\<forall>it\<in>set (day_items rt (date i) items). item_date rt it = Inr (date i)"
      by (simp add: day_items_def)
    from process_items_same_day [OF this ne, of "[]"] grp
    have "aggregate rt (day_items rt (date i) items) = Inr [(date i, v)]"
      by (simp add: aggregate_def entry_of_def)
    then show ?thesis using ci' di
      by (simp add: analyze_forecast_def)
  qed
  have len: "length insights = card (set (item_dates rt items))"
    using dist sets by (metis distinct_card length_map set_map)
  show ?thesis using dist one sub len by blast
qed

theorem one_insight_per_date_witness:
  "analyze_forecast (python64 id) (Some \<lparr>fc_list = Some two_days_items\<rparr>) ''maize''
     = Inr (Some [\<lparr>date = 1, avg_temp = binary64 (102 / 5), max_temp = Fin (41 / 2), min_temp = Fin (binary64 (101 / 5)),
         total_rain = 7, avg_humidity = 65, conditions = ''Rain, Clouds, Thunderstorm'',
         recommendations = [thunderstorm_advice]\<rparr>,
        \<lparr>date = 0, avg_temp = 36, max_temp = Fin 36, min_temp = Fin 36,
         total_rain = 0, avg_humidity = 50, conditions = [],
         recommendations = [heat_warning, irrigation_advice]\<rparr>])
   \<and> card (set (item_dates (python64 id) two_days_items)) = 2
   \<and> day_items (python64 id) 1 two_days_items
       = [reading 86400 (81 / 4) 60 3 [''Rain'', ''Clouds''],
          reading 90000 (41 / 2) 70 4 [''Rain'', ''Thunderstorm'']]
   \<and> analyze_forecast (python64 id) (Some \<lparr>fc_list = Some (day_items (python64 id) 1 two_days_items)\<rparr>) ''maize''
     = Inr (Some [\<lparr>date = 1, avg_temp = binary64 (102 / 5), max_temp = Fin (41 / 2), min_temp = Fin (binary64 (101 / 5)),
         total_rain = 7, avg_humidity = 65, conditions = ''Rain, Clouds, Thunderstorm'',
         recommendations = [thunderstorm_advice]\<rparr>])
   \<and> day_items (python64 id) 0 two_days_items = [reading 0 36 50 0 []]
   \<and> analyze_forecast (python64 id) (Some \<lparr>fc_list = Some (day_items (python64 id) 0 two_days_items)\<rparr>) ''maize''
     = Inr (Some [\<lparr>date = 0, avg_temp = 36, max_temp = Fin 36, min_temp = Fin 36,
         total_rain = 0, avg_humidity = 50, conditions = [],
         recommendations = [heat_warning, irrigation_advice]\<rparr>])"
proof -
  have h1: "analyze_forecast (python64 id) (Some \<lparr>fc_list = Some two_days_items\<rparr>) ''maize''
     = Inr (Some [\<lparr>date = 1, avg_temp = binary64 (102 / 5), max_temp = Fin (41 / 2), min_temp = Fin (binary64 (101 / 5)),
         total_rain = 7, avg_humidity = 65, conditions = ''Rain, Clouds, Thunderstorm'',
         recommendations = [thunderstorm_advice]\<rparr>,
        \<lparr>date = 0, avg_temp = 36, max_temp = Fin 36, min_temp = Fin 36,
         total_rain = 0, avg_humidity = 50, conditions = [],
         recommendations = [heat_warning, irrigation_advice]\<rparr>])"
    by code_simp
  have h2: "fc_list \<lparr>fc_list = Some two_days_items\<rparr> = Some two_days_items"
    by simp
  have h3: "day_items (python64 id) 1 two_days_items
       = [reading 86400 (81 / 4) 60 3 [''Rain'', ''Clouds''],
          reading 90000 (41 / 2) 70 4 [''Rain'', ''Thunderstorm'']]"
    by code_simp
  have h4: "day_items (python64 id) 0 two_days_items = [reading 0 36 50 0 []]"
    by code_simp
  from one_insight_per_date [OF h1 h2] h1 h3 h4 show ?thesis
    by simp
qed

subsection \<open>Dependence on the run time\<close>

text \<open>
  Of the run time, the daily summaries use the arithmetic and the time zone only, and the
  insights use the order of set iteration in the joined condition labels only.
\<close>

lemma results_agree_up_to_conditions:
  assumes "float_round rt1 = float_round rt2" and "utc_offset rt1 = utc_offset rt2"
  shows "aggregate rt1 items = aggregate rt2 items
    \<and> map_sum id (map_option (map without_conditions)) (analyze_forecast rt1 forecast_data crop_type)
      = map_sum id (map_option (map without_conditions)) (analyze_forecast rt2 forecast_data crop_type)
    \<and> (set_order rt1 = set_order rt2 \<longrightarrow>
         analyze_forecast rt1 forecast_data crop_type = analyze_forecast rt2 forecast_data crop_type)"
proof -
  have agg: "aggregate rt1 its = aggregate rt2 its" for its
    by (simp add: aggregate_def process_items_cong [OF assms])
  have gen: "map_sum id (map without_conditions) (generate_insights rt1 ci dd)
       = map_sum id (map without_conditions) (generate_insights rt2 ci dd)" for ci dd
    by (rule generate_insights_cong [OF assms(1)])
  have "map_sum id (map_option (map without_conditions)) (analyze_forecast rt1 forecast_data crop_type)
      = map_sum id (map_option (map without_conditions)) (analyze_forecast rt2 forecast_data crop_type)"
  proof (cases forecast_data)
    case None
    then show ?thesis by (simp add: analyze_forecast_def)
  next
    case (Some fd)
    show ?thesis
    proof (cases "crop_info_of crop_type")
      case (Inl e)
      then show ?thesis using Some by (simp add: analyze_forecast_def)
    next
      case ci: (Inr ci)
      show ?thesis
      proof (cases "fc_list fd")
        case None
        then show ?thesis using Some ci by (simp add: analyze_forecast_def)
      next
        case its: (Some its)
        show ?thesis
        proof (cases "aggregate rt2 its")
          case (Inl e)
          then show ?thesis using Some ci its by (simp add: analyze_forecast_def agg)
        next
          case (Inr dd)
          from gen [of ci dd] show ?thesis using Some ci its Inr
            by (cases "generate_insights rt1 ci dd"; cases "generate_insights rt2 ci dd")
              (simp_all add: analyze_forecast_def agg)
        qed
      qed
    qed
  qed
  moreover have "analyze_forecast rt1 forecast_data crop_type = analyze_forecast rt2 forecast_data crop_type"
    if "set_order rt1 = set_order rt2"
    by (simp add: analyze_forecast_def agg generate_insights_cong_full [OF assms(1) that]
        cong: option.case_cong sum.case_cong)
  ultimately show ?thesis using agg by blast
qed

text \<open>
  The joined condition labels do follow the order of set iteration: for
  \<open>two_days_items\<close> one order gives \<^verbatim>\<open>Rain, Clouds, Thunderstorm\<close> and the reverse
  order gives \<^verbatim>\<open>Thunderstorm, Clouds, Rain\<close>. The order is fixed within one Python
  process and changes with its hash seed.
\<close>

lemma conditions_follow_set_order:
  "map_sum id (map_option (map conditions))
     (analyze_forecast (python64 id) (Some \<lparr>fc_list = Some two_days_items\<rparr>) ''maize'')
     = Inr (Some [''Rain, Clouds, Thunderstorm'', []])
   \<and> map_sum id (map_option (map conditions))
     (analyze_forecast (python64 rev) (Some \<lparr>fc_list = Some two_days_items\<rparr>) ''maize'')
     = Inr (Some [''Thunderstorm, Clouds, Rain'', []])
   \<and> analyze_forecast (python64 id) (Some \<lparr>fc_list = Some two_days_items\<rparr>) ''maize''
     \<noteq> analyze_forecast (python64 rev) (Some \<lparr>fc_list = Some two_days_items\<rparr>) ''maize''"
proof -
  have "analyze_forecast (python64 id) (Some \<lparr>fc_list = Some two_days_items\<rparr>) ''maize''
     = Inr (Some [\<lparr>date = 1, avg_temp = binary64 (102 / 5), max_temp = Fin (41 / 2), min_temp = Fin (binary64 (101 / 5)),
         total_rain = 7, avg_humidity = 65, conditions = ''Rain, Clouds, Thunderstorm'',
         recommendations = [thunderstorm_advice]\<rparr>,
        \<lparr>date = 0, avg_temp = 36, max_temp = Fin 36, min_temp = Fin 36,
         total_rain = 0, avg_humidity = 50, conditions = [],
         recommendations = [heat_warning, irrigation_advice]\<rparr>])"
    by code_simp
  moreover have "analyze_forecast (python64 rev) (Some \<lparr>fc_list = Some two_days_items\<rparr>) ''maize''
     = Inr (Some [\<lparr>date = 1, avg_temp = binary64 (102 / 5), max_temp = Fin (41 / 2), min_temp = Fin (binary64 (101 / 5)),
         total_rain = 7, avg_humidity = 65, conditions = ''Thunderstorm, Clouds, Rain'',
         recommendations = [thunderstorm_advice]\<rparr>,
        \<lparr>date = 0, avg_temp = 36, max_temp = Fin 36, min_temp = Fin 36,
         total_rain = 0, avg_humidity = 50, conditions = [],
         recommendations = [heat_warning, irrigation_advice]\<rparr>])"
    by code_simp
  ultimately show ?thesis
    by simp
qed

text \<open>
  That two calls of \<open>analyze_forecast\<close> on the same payload and crop name give the same
  result has no theorem here. \<open>analyze_forecast\<close> is a function of the logic, so the
  statement holds by reflexivity for any body; that the Python method writes to no
  attribute and to no part of the payload is read off the source when it is translated.
\<close>

subsection \<open>Bounds of an insight\<close>




end
